theory Spec2Isabelle
  imports Complex_Main
begin

section \<open>Numbers (the arithmetic of useFaceDetection.ts, lines 105-142)\<close>

text \<open>
  A JavaScript number is an IEEE 754 double: a finite value, one of the two infinities or
  NaN. A finite value is kept as the real it stands for; the sign of zero is not kept
  (the code never divides by a negative zero: its only divisors are a product of square
  roots and the literal 2).
\<close>

datatype jsnum = Finite real | PosInf | NegInf | NaN

text \<open>
  Rounding to the nearest double, ties to even: \<open>binary64 x\<close> is the double that an
  operation with the exact result \<open>x\<close> returns. The unit in the last place of \<open>x\<close> is
  \<open>2 ^ (e - 52)\<close> for the exponent \<open>e\<close> of \<open>x\<close>, which is at least -1022 (below, the
  doubles are subnormal); a result of \<open>2 ^ 1024\<close> or more overflows to an infinity.
\<close>

definition roundEven :: "real \<Rightarrow> int" where
  "roundEven y =
     (let f = \<lfloor>y\<rfloor>; d = y - of_int f in
      if d < 1 / 2 then f else if 1 / 2 < d then f + 1 else if even f then f else f + 1)"

definition huge :: real where
  "huge = 2 ^ 1024"

definition binary64 :: "real \<Rightarrow> jsnum" where
  "binary64 x =
     (if x = 0 then Finite 0
      else let e = max \<lfloor>log 2 \<bar>x\<bar>\<rfloor> (- 1022);
               u = 2 powr of_int (e - 52);
               r = of_int (roundEven (x / u)) * u
           in if huge \<le> \<bar>r\<bar> then (if 0 < x then PosInf else NegInf) else Finite r)"

text \<open>
  The operations \<open>+\<close>, \<open>*\<close>, \<open>/\<close>, \<open>Math.sqrt\<close>, \<open>>=\<close>, \<open><\<close> and \<open>===\<close> on doubles: the
  exact result rounded, and the cases of IEEE 754 for infinities and NaN.
\<close>

fun js_add :: "jsnum \<Rightarrow> jsnum \<Rightarrow> jsnum" where
  "js_add (Finite x) (Finite y) = binary64 (x + y)"
| "js_add NaN _ = NaN"
| "js_add _ NaN = NaN"
| "js_add PosInf NegInf = NaN"
| "js_add NegInf PosInf = NaN"
| "js_add PosInf _ = PosInf"
| "js_add _ PosInf = PosInf"
| "js_add NegInf _ = NegInf"
| "js_add _ NegInf = NegInf"

definition signed_inf :: "bool \<Rightarrow> jsnum" where
  "signed_inf positive = (if positive then PosInf else NegInf)"

fun js_mul :: "jsnum \<Rightarrow> jsnum \<Rightarrow> jsnum" where
  "js_mul (Finite x) (Finite y) = binary64 (x * y)"
| "js_mul NaN _ = NaN"
| "js_mul _ NaN = NaN"
| "js_mul (Finite x) i = (if x = 0 then NaN else signed_inf ((0 < x) = (i = PosInf)))"
| "js_mul i (Finite y) = (if y = 0 then NaN else signed_inf ((0 < y) = (i = PosInf)))"
| "js_mul i j = signed_inf (i = j)"

fun js_div :: "jsnum \<Rightarrow> jsnum \<Rightarrow> jsnum" where
  "js_div (Finite x) (Finite y) =
     (if y = 0 then (if x = 0 then NaN else signed_inf (0 < x)) else binary64 (x / y))"
| "js_div NaN _ = NaN"
| "js_div _ NaN = NaN"
| "js_div (Finite x) _ = Finite 0"
| "js_div i (Finite y) = signed_inf ((0 \<le> y) = (i = PosInf))"
| "js_div _ _ = NaN"

fun js_sqrt :: "jsnum \<Rightarrow> jsnum" where
  "js_sqrt (Finite x) = (if x < 0 then NaN else binary64 (sqrt x))"
| "js_sqrt PosInf = PosInf"
| "js_sqrt _ = NaN"

fun js_ge :: "jsnum \<Rightarrow> jsnum \<Rightarrow> bool" where
  "js_ge (Finite x) (Finite y) = (y \<le> x)"
| "js_ge NaN _ = False"
| "js_ge _ NaN = False"
| "js_ge PosInf _ = True"
| "js_ge _ NegInf = True"
| "js_ge _ _ = False"

fun js_lt :: "jsnum \<Rightarrow> jsnum \<Rightarrow> bool" where
  "js_lt (Finite x) (Finite y) = (x < y)"
| "js_lt NaN _ = False"
| "js_lt _ NaN = False"
| "js_lt PosInf _ = False"
| "js_lt _ NegInf = False"
| "js_lt _ _ = True"

fun js_eq :: "jsnum \<Rightarrow> jsnum \<Rightarrow> bool" where
  "js_eq (Finite x) (Finite y) = (x = y)"
| "js_eq NaN _ = False"
| "js_eq _ NaN = False"
| "js_eq a b = (a = b)"

section \<open>The similarity score (useFaceDetection.ts, lines 105-142)\<close>

text \<open>A descriptor is the list of its numbers.\<close>

record FaceEmbedding =
  descriptor :: "jsnum list"
  timestamp :: nat

text \<open>
  The loop of lines 119-123, with its three accumulators. It reads \<open>desc2\<close> at the indices
  of \<open>desc1\<close>; \<open>compareFaces\<close> enters it only with two descriptors of one length, so every
  read is within range.
\<close>

function compareLoop :: "jsnum list \<Rightarrow> jsnum list \<Rightarrow> nat \<Rightarrow> jsnum \<times> jsnum \<times> jsnum \<Rightarrow> jsnum \<times> jsnum \<times> jsnum" where
  "compareLoop desc1 desc2 i (dotProduct, norm1, norm2) =
     (if i < length desc1
      then compareLoop desc1 desc2 (i + 1)
             (js_add dotProduct (js_mul (desc1 ! i) (desc2 ! i)),
              js_add norm1 (js_mul (desc1 ! i) (desc1 ! i)),
              js_add norm2 (js_mul (desc2 ! i) (desc2 ! i)))
      else (dotProduct, norm1, norm2))"
  by pat_completeness auto
termination
  by (relation "measure (\<lambda>(d1, d2, i, acc). length d1 - i)") auto

definition compareFaces :: "FaceEmbedding \<Rightarrow> FaceEmbedding \<Rightarrow> jsnum" where
  "compareFaces embedding1 embedding2 =
     (let desc1 = descriptor embedding1; desc2 = descriptor embedding2 in
      if length desc1 \<noteq> length desc2 then Finite 0
      else (case compareLoop desc1 desc2 0 (Finite 0, Finite 0, Finite 0) of
              (dotProduct, sq1, sq2) \<Rightarrow>
                let norm1 = js_sqrt sq1; norm2 = js_sqrt sq2 in
                if js_eq norm1 (Finite 0) \<or> js_eq norm2 (Finite 0) then Finite 0
                else let cosineSimilarity = js_div dotProduct (js_mul norm1 norm2)
                     in js_div (js_add cosineSimilarity (Finite 1)) (Finite 2)))"

section \<open>Strings\<close>

text \<open>
  A JavaScript string is a sequence of UTF-16 code units; each unit is kept as its number.
  \<open>lit\<close> turns an ASCII literal into such a sequence.
\<close>

type_synonym jsstring = "nat list"

definition lit :: "string \<Rightarrow> jsstring" where
  "lit s = map of_char s"

definition dquote :: nat where
  "dquote = 34"

text \<open>The code units that \<open>String.prototype.trim\<close> removes (WhiteSpace and LineTerminator).\<close>

definition isWhiteSpace :: "nat \<Rightarrow> bool" where
  "isWhiteSpace c =
     (c \<in> set [9, 10, 11, 12, 13, 32, 160, 5760, 8232, 8233, 8239, 8287, 12288, 65279]
      \<or> (8192 \<le> c \<and> c \<le> 8202))"

definition trim :: "jsstring \<Rightarrow> jsstring" where
  "trim s = rev (dropWhile isWhiteSpace (rev (dropWhile isWhiteSpace s)))"

definition startsWith :: "jsstring \<Rightarrow> jsstring \<Rightarrow> bool" where
  "startsWith s p = (take (length p) s = p)"

definition endsWith :: "jsstring \<Rightarrow> jsstring \<Rightarrow> bool" where
  "endsWith s p = (length p \<le> length s \<and> drop (length s - length p) s = p)"

text \<open>\<open>s.slice(1, -1)\<close>: the units from index 1 up to, not including, the last one.\<close>

definition slice_1_m1 :: "jsstring \<Rightarrow> jsstring" where
  "slice_1_m1 s = take (length s - 2) (drop 1 s)"

section \<open>The detection hook (useFaceDetection.ts)\<close>

text \<open>
  What the detection capability (face-api.js, an external library) does on one call is an
  input of the model: the frame a video element shows, with its dimensions, the outcome of
  \<open>detectAllFaces\<close> on it (an exception, or the descriptors of the faces found, in the
  order returned) and the reading of \<open>Date.now()\<close>.
\<close>

datatype detection_result = DetectionThrows | Detections "jsnum list list"

record frame =
  videoWidth :: nat
  videoHeight :: nat
  detectAllFaces :: detection_result
  now :: nat

text \<open>
  \<open>detectFaces\<close>, lines 49-82. The result \<open>None\<close> is the \<open>null\<close> of the source; a video
  element that is \<open>null\<close> is \<open>None\<close>.
\<close>

definition detectFaces :: "bool \<Rightarrow> frame option \<Rightarrow> jsnum list list option" where
  "detectFaces modelsLoaded videoElement =
     (if \<not> modelsLoaded then None
      else case videoElement of
        None \<Rightarrow> None
      | Some v \<Rightarrow>
          if videoWidth v = 0 \<or> videoHeight v = 0 then None
          else (case detectAllFaces v of
                  DetectionThrows \<Rightarrow> None
                | Detections detections \<Rightarrow> Some detections))"

text \<open>\<open>extractFaceEmbedding\<close>, lines 84-103; \<open>t\<close> is what \<open>Date.now()\<close> returns.\<close>

definition extractFaceEmbedding :: "bool \<Rightarrow> nat \<Rightarrow> frame option \<Rightarrow> FaceEmbedding option" where
  "extractFaceEmbedding modelsLoaded t videoElement =
     (case detectFaces modelsLoaded videoElement of
        None \<Rightarrow> None
      | Some [] \<Rightarrow> None
      | Some (detection # _) \<Rightarrow> Some \<lparr>descriptor = detection, timestamp = t\<rparr>)"

section \<open>The verification component (FaceVerification.tsx)\<close>

subsection \<open>Data\<close>

text \<open>
  A row of the \<open>users\<close> table, with the four columns the component selects. The column
  \<open>face_embedding\<close> is read with a cast to \<open>any\<close>: it is \<open>null\<close> (or another falsy value),
  an embedding, or a truthy value without a \<open>descriptor\<close> array, on which \<open>compareFaces\<close>
  raises a TypeError.
\<close>

datatype stored_embedding = NullEmbedding | StoredEmbedding FaceEmbedding | Malformed

record user =
  id' :: jsstring
  name :: jsstring
  face_embedding :: stored_embedding
  face_image_url :: "jsstring option"

text \<open>The row inserted into \<open>verification_events\<close>, lines 277-282.\<close>

record verification_event =
  user_id :: jsstring
  rfid_tag :: jsstring
  face_verified :: bool
  rfid_verified :: bool

datatype image_result = LoadFails | Loaded frame

text \<open>
  Everything outside the component that one run depends on: the camera, the mounted video
  element, the table of users, the two flags of the detection hook as the component's
  closure holds them, what the camera shows at each detection call, and what loading an
  image URL gives (\<open>LoadFails\<close>: the image does not load, there is no canvas context or
  \<open>play()\<close> rejects; \<open>Loaded f\<close>: the temporary video shows frame \<open>f\<close>).
\<close>

record env =
  getUserMedia_ok :: bool
  play_ok :: bool
  video_present :: bool
  poll_width :: "nat \<Rightarrow> nat"
  users :: "user list"
  query_error :: bool
  detectorLoading :: bool
  modelsLoaded :: bool
  live :: "nat \<Rightarrow> frame"
  image :: "jsstring \<Rightarrow> image_result"

datatype status = Success | Failed

text \<open>
  What the component does, in the order it does it. \<open>Delay ms\<close> is an awaited timer,
  \<open>Hold ms\<close> the timer of a \<open>setTimeout\<close> whose callback is the events after it.
  Logging and toasts are left out.
\<close>

datatype event =
    GetUserMedia
  | Play
  | SetStream
  | SetIsVerifying
  | Query jsstring
  | Delay nat
  | LiveDetect nat
  | SetFaceDetected bool
  | LiveExtract nat
  | LoadImage jsstring
  | ReferenceExtract
  | Insert verification_event
  | SetVerificationStatus status
  | Hold nat
  | StopCamera
  | OnVerified jsstring
  | OnFailed

text \<open>
  The terminal states. The source names no reasons; each reason stands for one failure
  branch: \<open>VideoMissing\<close> line 89, \<open>UserNotFound\<close> line 108, \<open>NoReferenceData\<close> line 120,
  \<open>ModelsNotReady\<close> line 140, \<open>NoLiveFace\<close> line 204, \<open>InvalidReference\<close> line 233,
  \<open>NoFaceInReference\<close> line 252, \<open>BelowThreshold\<close> line 288, \<open>UnexpectedError\<close> line 297.
\<close>

datatype reason =
    VideoMissing
  | UserNotFound
  | NoReferenceData
  | ModelsNotReady
  | NoLiveFace
  | InvalidReference
  | NoFaceInReference
  | BelowThreshold
  | UnexpectedError

datatype outcome = Matched jsstring | Rejected reason

subsection \<open>The datastore\<close>

text \<open>
  Modelled from the spec: the datastore lookup \<open>getUserByKey\<close>, which the source reaches
  through the Supabase client (\<open>@/integrations/supabase/client\<close>, not among the sources):
  \<open>.eq('id', rfidTag)\<close> keeps the rows whose \<open>id\<close> equals the tag, and \<open>.maybeSingle()\<close>
  gives no data for no row, the row for one row and an error for several. The pair is
  \<open>(data, error)\<close>.
\<close>

definition maybeSingle :: "user list \<Rightarrow> user option \<times> bool" where
  "maybeSingle rows =
     (case rows of [] \<Rightarrow> (None, False) | [r] \<Rightarrow> (Some r, False) | _ \<Rightarrow> (None, True))"

definition query :: "env \<Rightarrow> jsstring \<Rightarrow> user option \<times> bool" where
  "query e rfidTag =
     (if query_error e then (None, True)
      else maybeSingle (filter (\<lambda>u. id' u = rfidTag) (users e)))"

subsection \<open>Camera start-up, lines 29-76\<close>

text \<open>
  The polling of lines 40-48: every 100 ms the width of the video is read, until it is
  positive. \<open>poll w k\<close> is the number of the first reading, from the \<open>k\<close>-th on, that is
  positive; it is \<open>None\<close> when there is none and the promise never resolves.
\<close>

partial_function (option) poll :: "(nat \<Rightarrow> nat) \<Rightarrow> nat \<Rightarrow> nat option" where
  "poll w k = (if w k > 0 then Some k else poll w (Suc k))"

declare poll.simps [code]

definition startCamera :: "env \<Rightarrow> event list option" where
  "startCamera e =
     (if \<not> getUserMedia_ok e then Some [GetUserMedia, OnFailed]
      else if video_present e then
        (if \<not> play_ok e then Some [GetUserMedia, Play, OnFailed]
         else case poll (poll_width e) 0 of
                None \<Rightarrow> None
              | Some k \<Rightarrow> Some ([GetUserMedia, Play] @ replicate (Suc k) (Delay 100) @ [SetStream]))
      else Some [GetUserMedia, SetStream])"

subsection \<open>The retry loop, lines 163-202\<close>

definition maxRetries :: nat where
  "maxRetries = 10"

text \<open>
  \<open>videoRef.current\<close> at the \<open>k\<close>-th detection call of the run. Attempt \<open>n\<close> makes the
  calls \<open>2 * n - 2\<close> (its own \<open>detectFaces\<close>) and \<open>2 * n - 1\<close> (inside \<open>extractFaceEmbedding\<close>).
\<close>

definition videoRef :: "env \<Rightarrow> nat \<Rightarrow> frame option" where
  "videoRef e k = (if video_present e then Some (live e k) else None)"

definition liveFaces :: "env \<Rightarrow> nat \<Rightarrow> jsnum list list option" where
  "liveFaces e attempt = detectFaces (modelsLoaded e) (videoRef e (2 * attempt - 2))"

definition liveExtract :: "env \<Rightarrow> nat \<Rightarrow> FaceEmbedding option" where
  "liveExtract e attempt =
     extractFaceEmbedding (modelsLoaded e) (now (live e (2 * attempt - 1)))
       (videoRef e (2 * attempt - 1))"

definition attemptEvents :: "env \<Rightarrow> nat \<Rightarrow> event list" where
  "attemptEvents e attempt =
     [LiveDetect attempt,
      SetFaceDetected (case liveFaces e attempt of Some (_ # _) \<Rightarrow> True | _ \<Rightarrow> False),
      LiveExtract attempt]"

function attemptLoop :: "env \<Rightarrow> nat \<Rightarrow> event list \<times> FaceEmbedding option" where
  "attemptLoop e attempt =
     (if attempt \<le> maxRetries then
        (case liveExtract e attempt of
           Some currentEmbedding \<Rightarrow> (attemptEvents e attempt, Some currentEmbedding)
         | None \<Rightarrow>
             (case attemptLoop e (attempt + 1) of
                (evs, r) \<Rightarrow>
                  (attemptEvents e attempt
                     @ (if attempt < maxRetries then [Delay 1500] else []) @ evs, r)))
      else ([], None))"
  by pat_completeness auto
termination
  by (relation "measure (\<lambda>(e, attempt). Suc maxRetries - attempt)") auto

subsection \<open>Resolving the stored face, lines 220-262 and 307-385\<close>

definition truthy :: "jsstring option \<Rightarrow> bool" where
  "truthy s = (case s of None \<Rightarrow> False | Some u \<Rightarrow> u \<noteq> [])"

definition cleanUrl :: "jsstring \<Rightarrow> jsstring" where
  "cleanUrl face_image_url' =
     (let imageUrl = trim face_image_url' in
      if startsWith imageUrl [dquote] \<and> endsWith imageUrl [dquote]
      then slice_1_m1 imageUrl else imageUrl)"

definition validUrl :: "jsstring \<Rightarrow> bool" where
  "validUrl imageUrl =
     (\<not> (\<not> startsWith imageUrl (lit ''http://'') \<and> \<not> startsWith imageUrl (lit ''https://'')))"

definition extractEmbeddingFromImage :: "env \<Rightarrow> jsstring \<Rightarrow> event list \<times> FaceEmbedding option" where
  "extractEmbeddingFromImage e imageUrl =
     (case image e imageUrl of
        LoadFails \<Rightarrow> ([LoadImage imageUrl], None)
      | Loaded tempVideo \<Rightarrow>
          ([LoadImage imageUrl, Delay 500, ReferenceExtract],
           extractFaceEmbedding (modelsLoaded e) (now tempVideo) (Some tempVideo)))"

text \<open>
  The result is the events and either the failure (its reason and the delay before
  \<open>onFailed\<close>) or the value of \<open>storedEmbedding\<close> that goes on to the comparison.
\<close>

definition resolveReference :: "env \<Rightarrow> user \<Rightarrow> event list \<times> (reason \<times> nat + stored_embedding)" where
  "resolveReference e u =
     (if face_embedding u = NullEmbedding \<and> truthy (face_image_url u) then
        (let imageUrl = cleanUrl (case face_image_url u of Some s \<Rightarrow> s | None \<Rightarrow> []) in
         if \<not> validUrl imageUrl then ([], Inl (InvalidReference, 3000))
         else (case extractEmbeddingFromImage e imageUrl of
                 (evs, None) \<Rightarrow> (evs, Inl (NoFaceInReference, 2000))
               | (evs, Some emb) \<Rightarrow> (evs, Inr (StoredEmbedding emb))))
      else ([], Inr (face_embedding u)))"

subsection \<open>Scoring, lines 264-304\<close>

text \<open>
  A stored value that is no embedding makes \<open>compareFaces\<close> raise a TypeError, which the
  \<open>catch\<close> of lines 297-304 turns into a failure after 2000 ms: the last case below. The
  result of the insert is not read, and the client resolves with an error value when a
  request fails, so the insert has no raising branch. The literal \<open>0.65\<close> is the double
  nearest to 65 / 100, and \<open>>=\<close> is false when the score is NaN.
\<close>

definition SIMILARITY_THRESHOLD :: jsnum where
  "SIMILARITY_THRESHOLD = binary64 (65 / 100)"

definition failed :: "nat \<Rightarrow> event list" where
  "failed ms = [SetVerificationStatus Failed, Hold ms, StopCamera, OnFailed]"

definition scoring :: "user \<Rightarrow> jsstring \<Rightarrow> stored_embedding \<Rightarrow> FaceEmbedding \<Rightarrow> outcome \<times> event list" where
  "scoring u rfidTag storedEmbedding currentEmbedding =
     (case storedEmbedding of
        StoredEmbedding stored \<Rightarrow>
          (let similarity = compareFaces stored currentEmbedding in
           if js_ge similarity SIMILARITY_THRESHOLD then
             (Matched (id' u),
              [SetVerificationStatus Success,
               Insert \<lparr>user_id = id' u, rfid_tag = rfidTag,
                       face_verified = True, rfid_verified = True\<rparr>,
               Hold 3000, StopCamera, OnVerified (id' u)])
           else (Rejected BelowThreshold,
                 [SetVerificationStatus Failed, Hold 3000, StopCamera, OnFailed]))
      | _ \<Rightarrow> (Rejected UnexpectedError, failed 2000))"

subsection \<open>\<open>verifyFace\<close>, lines 88-305, and \<open>startVerification\<close>, lines 65-76\<close>

text \<open>
  The result is the terminal state and the trace. \<open>video_present\<close> stands for
  \<open>videoRef.current\<close> during the whole run, and \<open>detectorLoading\<close> is the one binding that
  the checks of lines 134 and 140 both read: when it is set the run waits 2000 ms and
  fails.
\<close>

definition verifyFace :: "env \<Rightarrow> jsstring \<Rightarrow> outcome \<times> event list" where
  "verifyFace e rfidTag =
     (if \<not> video_present e then (Rejected VideoMissing, [OnFailed])
      else case query e rfidTag of
        (None, _) \<Rightarrow> (Rejected UserNotFound, Query rfidTag # failed 2000)
      | (Some u, True) \<Rightarrow> (Rejected UserNotFound, Query rfidTag # failed 2000)
      | (Some u, False) \<Rightarrow>
          if face_embedding u = NullEmbedding \<and> \<not> truthy (face_image_url u)
          then (Rejected NoReferenceData, Query rfidTag # failed 2000)
          else if detectorLoading e
          then (Rejected ModelsNotReady, [Query rfidTag, Delay 2000] @ failed 2000)
          else (case attemptLoop e 1 of
                  (levs, None) \<Rightarrow>
                    (Rejected NoLiveFace, [Query rfidTag, Delay 1500] @ levs @ failed 2000)
                | (levs, Some currentEmbedding) \<Rightarrow>
                    (case resolveReference e u of
                       (revs, Inl (r, ms)) \<Rightarrow>
                         (Rejected r, [Query rfidTag, Delay 1500] @ levs @ revs @ failed ms)
                     | (revs, Inr storedEmbedding) \<Rightarrow>
                         (case scoring u rfidTag storedEmbedding currentEmbedding of
                            (out, sevs) \<Rightarrow>
                              (out, [Query rfidTag, Delay 1500] @ levs @ revs @ sevs)))))"

text \<open>
  \<open>startVerification\<close> awaits \<open>startCamera\<close> and then sets the timer that runs \<open>verifyFace\<close>.
  \<open>None\<close>: the camera never reports its dimensions and the run does not go on.
\<close>

definition startVerification :: "env \<Rightarrow> jsstring \<Rightarrow> (outcome \<times> event list) option" where
  "startVerification e rfidTag =
     (case startCamera e of
        None \<Rightarrow> None
      | Some cevs \<Rightarrow>
          (case verifyFace e rfidTag of
             (out, vevs) \<Rightarrow> Some (out, cevs @ [SetIsVerifying, Hold 3500] @ vevs)))"

subsection \<open>Reading a trace\<close>

text \<open>The numbers of the live extraction attempts of a trace, in order.\<close>

fun attempts :: "event list \<Rightarrow> nat list" where
  "attempts [] = []"
| "attempts (LiveExtract n # evs) = n # attempts evs"
| "attempts (_ # evs) = attempts evs"

text \<open>The rows a trace inserts into \<open>verification_events\<close>, in order.\<close>

fun audits :: "event list \<Rightarrow> verification_event list" where
  "audits [] = []"
| "audits (Insert a # evs) = a # audits evs"
| "audits (_ # evs) = audits evs"

text \<open>The calls of the two continuations \<open>onVerified\<close> and \<open>onFailed\<close>.\<close>

fun isContinuation :: "event \<Rightarrow> bool" where
  "isContinuation (OnVerified _) = True"
| "isContinuation OnFailed = True"
| "isContinuation _ = False"

text \<open>The detection calls against the camera, and the steps of loading the stored image.\<close>

fun isLive :: "event \<Rightarrow> bool" where
  "isLive (LiveDetect _) = True"
| "isLive (LiveExtract _) = True"
| "isLive _ = False"

fun isResolve :: "event \<Rightarrow> bool" where
  "isResolve (LoadImage _) = True"
| "isResolve ReferenceExtract = True"
| "isResolve _ = False"

text \<open>The events the retry loop can produce.\<close>

fun isLoopEvent :: "event \<Rightarrow> bool" where
  "isLoopEvent (LiveDetect _) = True"
| "isLoopEvent (SetFaceDetected _) = True"
| "isLoopEvent (LiveExtract _) = True"
| "isLoopEvent (Delay _) = True"
| "isLoopEvent _ = False"

text \<open>The events \<open>resolveReference\<close> can produce.\<close>

fun isResolveEvent :: "event \<Rightarrow> bool" where
  "isResolveEvent (LoadImage _) = True"
| "isResolveEvent (Delay _) = True"
| "isResolveEvent ReferenceExtract = True"
| "isResolveEvent _ = False"


text \<open>
  The events of the attempts \<open>a\<close> up to \<open>k - 1\<close> when each of them fails and is followed by
  the delay of 1500 ms.
\<close>

definition rounds :: "env \<Rightarrow> nat \<Rightarrow> nat \<Rightarrow> event list" where
  "rounds e a k = concat (map (\<lambda>j. attemptEvents e j @ [Delay 1500]) [a..<k])"

subsection \<open>Concrete runs\<close>

text \<open>
  A frame of the running camera with one face of descriptor \<open>d\<close>, one with no face, and
  the frame of a video without dimensions.
\<close>

definition faceFrame :: "jsnum list \<Rightarrow> frame" where
  "faceFrame d =
     \<lparr>videoWidth = 640, videoHeight = 480, detectAllFaces = Detections [d], now = 1000\<rparr>"

definition emptyFrame :: frame where
  "emptyFrame =
     \<lparr>videoWidth = 640, videoHeight = 480, detectAllFaces = Detections [], now = 1000\<rparr>"

definition blankFrame :: frame where
  "blankFrame =
     \<lparr>videoWidth = 0, videoHeight = 0, detectAllFaces = Detections [], now = 1000\<rparr>"


text \<open>A user with a stored descriptor, and one with only the URL of an image.\<close>

definition alice :: user where
  "alice =
     \<lparr>id' = lit ''A1'', name = lit ''Alice'',
      face_embedding = StoredEmbedding \<lparr>descriptor = [Finite 1, Finite 0], timestamp = 0\<rparr>,
      face_image_url = None\<rparr>"

definition bob :: user where
  "bob =
     \<lparr>id' = lit ''B2'', name = lit ''Bob'', face_embedding = NullEmbedding,
      face_image_url = Some (32 # dquote # lit ''https://example.com/f.jpg'' @ [dquote, 32])\<rparr>"

text \<open>
  A kiosk whose camera starts and whose models are loaded, with the users \<open>us\<close>, the
  camera showing \<open>fr k\<close> at the \<open>k\<close>-th detection call and the images \<open>im\<close>.
\<close>

definition kiosk :: "user list \<Rightarrow> (nat \<Rightarrow> frame) \<Rightarrow> (jsstring \<Rightarrow> image_result) \<Rightarrow> env" where
  "kiosk us fr im =
     \<lparr>getUserMedia_ok = True, play_ok = True, video_present = True, poll_width = (\<lambda>k. 640),
      users = us, query_error = False, detectorLoading = False, modelsLoaded = True,
      live = fr, image = im\<rparr>"

text \<open>The camera shows no face at the detection calls before the \<open>n\<close>-th and a face from then on.\<close>

definition faceAfter :: "nat \<Rightarrow> nat \<Rightarrow> frame" where
  "faceAfter n k = (if k < n then emptyFrame else faceFrame [Finite 0, Finite 1])"

text \<open>
  Alice stands before the camera; a stranger whose descriptor is orthogonal to hers does;
  Bob, whose image loads and shows his face, does; Carol, whose stored image is a local
  path, does; and the camera is refused while Alice is registered.
\<close>

definition seesAlice :: env where
  "seesAlice = kiosk [alice] (\<lambda>k. faceFrame [Finite 1, Finite 0]) (\<lambda>url. LoadFails)"

definition seesStranger :: env where
  "seesStranger = kiosk [alice] (\<lambda>k. faceFrame [Finite 0, Finite 1]) (\<lambda>url. LoadFails)"

definition bobImage :: "jsstring \<Rightarrow> image_result" where
  "bobImage url =
     (if url = lit ''https://example.com/f.jpg'' then Loaded (faceFrame [Finite 1, Finite 0]) else LoadFails)"

definition seesBob :: env where
  "seesBob = kiosk [bob] (\<lambda>k. faceFrame [Finite 1, Finite 0]) bobImage"

definition carol :: user where
  "carol =
     \<lparr>id' = lit ''C3'', name = lit ''Carol'', face_embedding = NullEmbedding,
      face_image_url = Some (lit ''C:/faces/carol.jpg'')\<rparr>"

definition seesCarol :: env where
  "seesCarol = kiosk [carol] (\<lambda>k. faceFrame [Finite 1, Finite 0]) (\<lambda>url. LoadFails)"

definition cameraDenied :: env where
  "cameraDenied = (kiosk [alice] (\<lambda>k. blankFrame) (\<lambda>url. LoadFails))\<lparr>getUserMedia_ok := False\<rparr>"




section \<open>Properties of the arithmetic and of the score\<close>

lemma roundEven_near: "\<bar>y - of_int m\<bar> < 1 / 2 \<Longrightarrow> roundEven y = m"
proof -
  assume a: "\<bar>y - of_int m\<bar> < 1 / 2"
  show ?thesis
  proof (cases "of_int m \<le> y")
    case True
    with a have "\<lfloor>y\<rfloor> = m" by (intro floor_unique; linarith)
    with a True show ?thesis by (simp add: roundEven_def Let_def; linarith)
  next
    case False
    with a have f: "\<lfloor>y\<rfloor> = m - 1" by (intro floor_unique; simp; linarith)
    from a False have "1 / 2 < y - of_int (m - 1)" by (simp; linarith)
    with f show ?thesis by (simp add: roundEven_def Let_def; linarith)
  qed
qed


lemma binary64_normal:
  assumes "2 powr of_int e \<le> \<bar>x\<bar>" and "\<bar>x\<bar> < 2 powr of_int (e + 1)" and "- 1022 \<le> e"
    and "\<bar>x / 2 powr of_int (e - 52) - of_int m\<bar> < 1 / 2"
    and "\<bar>of_int m * 2 powr of_int (e - 52)\<bar> < huge"
  shows "binary64 x = Finite (of_int m * 2 powr of_int (e - 52))"
proof -
  from assms(1) have nz: "x \<noteq> 0" using powr_gt_zero [of 2 "of_int e"] by auto
  then have "0 < \<bar>x\<bar>" by simp
  then have "\<lfloor>log 2 \<bar>x\<bar>\<rfloor> = e"
    using assms(1,2) by (simp add: floor_log_eq_powr_iff)
  with assms(3) have e: "max \<lfloor>log 2 \<bar>x\<bar>\<rfloor> (- 1022) = e" by simp
  have r: "roundEven (x / 2 powr of_int (e - 52)) = m"
    by (rule roundEven_near [OF assms(4)])
  from assms(5) have "\<not> huge \<le> \<bar>of_int m * 2 powr of_int (e - 52)\<bar>" by simp
  then show ?thesis
    unfolding binary64_def Let_def e r using nz by simp
qed

lemma small_lt_huge: "\<bar>r\<bar> \<le> 2 ^ 60 \<Longrightarrow> \<bar>r\<bar> < huge"
proof -
  assume a: "\<bar>r\<bar> \<le> 2 ^ 60"
  have "(2::real) ^ 60 < 2 ^ 1024" by (rule power_strict_increasing) simp_all
  with a show "\<bar>r\<bar> < huge" unfolding huge_def by (rule order_le_less_trans)
qed

lemma binary64_zero: "binary64 0 = Finite 0"
  by (simp add: binary64_def)

declare compareLoop.simps [simp del]

lemma binary64_step:
  assumes "u = 2 powr of_int (e - 52)" and "2 ^ 52 * u \<le> \<bar>x\<bar>" and "\<bar>x\<bar> < 2 ^ 53 * u"
    and "- 1022 \<le> e" and "\<bar>x / u - of_int m\<bar> < 1 / 2" and "\<bar>of_int m * u\<bar> \<le> 2 ^ 60"
  shows "binary64 x = Finite (of_int m * u)"
proof -
  have p: "(2::real) powr (52 + (of_int e - 52)) = 2 powr 52 * 2 powr (of_int e - 52)"
    and q: "(2::real) powr (53 + (of_int e - 52)) = 2 powr 53 * 2 powr (of_int e - 52)"
    by (rule powr_add)+
  from p have a: "(2::real) powr of_int e = 2 ^ 52 * u" by (simp add: assms(1))
  have "53 + (real_of_int e - 52) = of_int (e + 1)" by simp
  with q have b: "(2::real) powr of_int (e + 1) = 2 ^ 53 * u" by (simp add: assms(1))
  show ?thesis
    unfolding assms(1)
    by (rule binary64_normal) (use assms a b small_lt_huge in simp_all)
qed

lemma binary64_between:
  assumes "u = 2 powr of_int (e - 52)" and "- 1022 \<le> e"
    and "2 ^ 52 * u \<le> x" and "x < 2 ^ 53 * u"
    and "(of_int m - 1 / 2) * u < x" and "x < (of_int m + 1 / 2) * u"
    and "0 \<le> m" and "of_int m * u \<le> 2 ^ 60"
  shows "binary64 x = Finite (of_int m * u)"
proof -
  have u: "0 < u" by (simp add: assms(1))
  with assms(3) have x: "0 \<le> x" by (meson mult_nonneg_nonneg order_trans zero_le_numeral zero_le_power less_imp_le)
  from u assms(5,6) have "of_int m - 1 / 2 < x / u" and "x / u < of_int m + 1 / 2"
    by (simp_all add: pos_less_divide_eq pos_divide_less_eq)
  then have n: "\<bar>x / u - of_int m\<bar> < 1 / 2" by linarith
  from u assms(7) have "0 \<le> of_int m * u" by simp
  with assms(8) have "\<bar>of_int m * u\<bar> \<le> 2 ^ 60" by simp
  with x assms n show ?thesis by (intro binary64_step) simp_all
qed

lemma sqrt_between:
  "0 \<le> lo \<Longrightarrow> lo\<^sup>2 < a \<Longrightarrow> 0 \<le> hi \<Longrightarrow> a < hi\<^sup>2 \<Longrightarrow> lo < sqrt a \<and> sqrt a < hi"
  by (simp add: real_less_rsqrt real_less_lsqrt)

lemma sqrt2_double: "binary64 (sqrt 2) = Finite (6369051672525773 / 2 ^ 52)"
proof -
  have "(6369051672525773 - 1 / 2) * (1 / 2 ^ 52) < sqrt 2
      \<and> sqrt 2 < (6369051672525773 + 1 / 2) * (1 / 2 ^ 52)"
    by (rule sqrt_between) (simp_all add: power2_eq_square)
  moreover have "1 < sqrt 2 \<and> sqrt 2 < 2"
    by (rule sqrt_between) (simp_all add: power2_eq_square)
  ultimately show ?thesis
    using binary64_between [of "1 / 2 ^ 52" 0 "sqrt 2" 6369051672525773]
    by (simp add: powr_minus)
qed


lemma binary64_exact:
  assumes "u = 2 powr of_int (e - 52)" and "- 1022 \<le> e" and "2 ^ 52 \<le> m" and "m < 2 ^ 53"
    and "of_int m * u \<le> 2 ^ 60"
  shows "binary64 (of_int m * u) = Finite (of_int m * u)"
proof -
  have u: "0 < u" by (simp add: assms(1))
  from assms(3) have "(2::real) ^ 52 \<le> of_int m" by (metis of_int_le_iff of_int_numeral of_int_power)
  with u have a: "2 ^ 52 * u \<le> of_int m * u" by simp
  from assms(4) have "real_of_int m < 2 ^ 53" by (metis of_int_less_iff of_int_numeral of_int_power)
  with u have b: "of_int m * u < 2 ^ 53 * u" by simp
  from u have c: "(of_int m - 1 / 2) * u < of_int m * u" "of_int m * u < (of_int m + 1 / 2) * u"
    by simp_all
  from assms(3) have "0 \<le> m" by simp
  with assms a b c show ?thesis by (intro binary64_between) simp_all
qed

lemma binary64_1: "binary64 1 = Finite 1"
  using binary64_exact [of "1 / 2 ^ 52" 0 "2 ^ 52"] by (simp add: powr_minus)

lemma binary64_2: "binary64 2 = Finite 2"
  using binary64_exact [of "1 / 2 ^ 51" 1 "2 ^ 52"] by (simp add: powr_minus)

lemma binary64_half: "binary64 (1 / 2) = Finite (1 / 2)"
  using binary64_exact [of "1 / 2 ^ 53" "-1" "2 ^ 52"] by (simp add: powr_minus)

lemma threshold_double: "binary64 (65 / 100) = Finite (5854679515581645 / 2 ^ 53)"
  using binary64_between [of "1 / 2 ^ 53" "-1" "65 / 100" 5854679515581645]
  by (simp add: powr_minus)








lemma score_same_unit:
  "compareFaces \<lparr>descriptor = [Finite 1, Finite 0], timestamp = s\<rparr>
                \<lparr>descriptor = [Finite 1, Finite 0], timestamp = t\<rparr> = Finite 1"
proof -
  have l: "compareLoop [Finite 1, Finite 0] [Finite 1, Finite 0] 0 (Finite 0, Finite 0, Finite 0)
      = (Finite 1, Finite 1, Finite 1)"
    by (simp add: compareLoop.simps binary64_1 binary64_zero)
  show ?thesis
    by (simp add: compareFaces_def Let_def l binary64_1 binary64_2)
qed

lemma score_orthogonal:
  "compareFaces \<lparr>descriptor = [Finite 1, Finite 0], timestamp = s\<rparr>
                \<lparr>descriptor = [Finite 0, Finite 1], timestamp = t\<rparr> = Finite (1 / 2)"
proof -
  have l: "compareLoop [Finite 1, Finite 0] [Finite 0, Finite 1] 0 (Finite 0, Finite 0, Finite 0)
      = (Finite 0, Finite 1, Finite 1)"
    by (simp add: compareLoop.simps binary64_1 binary64_zero)
  show ?thesis
    by (simp add: compareFaces_def Let_def l binary64_1 binary64_zero binary64_half)
qed

lemma roundEven_tie: "even f \<Longrightarrow> roundEven (of_int f + 1 / 2) = f"
proof -
  have "\<lfloor>real_of_int f + 1 / 2\<rfloor> = f" by (intro floor_unique) simp_all
  then show "even f \<Longrightarrow> roundEven (of_int f + 1 / 2) = f"
    by (simp add: roundEven_def Let_def)
qed

lemma binary64_tie:
  assumes "u = 2 powr of_int (e - 52)" and "- 1022 \<le> e"
    and "2 ^ 52 \<le> f" and "f < 2 ^ 53 - 1" and "even f"
    and "of_int f * u \<le> 2 ^ 60"
  shows "binary64 ((of_int f + 1 / 2) * u) = Finite (of_int f * u)"
proof -
  define x where "x = (real_of_int f + 1 / 2) * u"
  have u: "0 < u" by (simp add: assms(1))
  from assms(3) have f52: "(2::real) ^ 52 \<le> of_int f"
    by (metis of_int_le_iff of_int_numeral of_int_power)
  from assms(4) have "f + 1 < 2 ^ 53" by simp
  then have f53: "real_of_int f + 1 < 2 ^ 53"
    by (metis of_int_less_iff of_int_numeral of_int_power of_int_add of_int_1)
  from assms(3) have "0 \<le> f" by simp
  then have f0: "0 \<le> real_of_int f" by simp
  with u have xpos: "0 < x" unfolding x_def by (intro mult_pos_pos) simp_all
  have pe: "(2::real) powr of_int e = 2 ^ 52 * u"
    using powr_add [of "2::real" 52 "of_int e - 52"] by (simp add: assms(1))
  have pe1: "(2::real) powr (of_int e + 1) = 2 ^ 53 * u"
    using powr_add [of "2::real" 53 "of_int e - 52"] by (simp add: assms(1) add.commute)
  from f52 have "(2::real) ^ 52 \<le> of_int f + 1 / 2" by simp
  with u have lo: "2 ^ 52 * u \<le> x" unfolding x_def
    by (intro mult_right_mono) simp_all
  from f53 have "real_of_int f + 1 / 2 < 2 ^ 53" by simp
  with u have hi: "x < 2 ^ 53 * u" unfolding x_def
    by (intro mult_strict_right_mono) simp_all
  from xpos lo hi have "\<lfloor>log 2 \<bar>x\<bar>\<rfloor> = e"
    by (simp add: floor_log_eq_powr_iff pe pe1)
  with assms(2) have e: "max \<lfloor>log 2 \<bar>x\<bar>\<rfloor> (- 1022) = e" by simp
  from u have q: "x / 2 powr of_int (e - 52) = of_int f + 1 / 2"
    unfolding x_def assms(1) [symmetric] by simp
  have r: "roundEven (x / 2 powr of_int (e - 52)) = f"
    unfolding q by (rule roundEven_tie [OF assms(5)])
  from f0 u have "0 \<le> of_int f * u" by (intro mult_nonneg_nonneg) simp_all
  with assms(6) have "\<bar>of_int f * u\<bar> < huge" by (intro small_lt_huge) simp
  then have "\<not> huge \<le> \<bar>of_int f * 2 powr of_int (e - 52)\<bar>" by (simp add: assms(1))
  with xpos have "binary64 x = Finite (of_int f * 2 powr of_int (e - 52))"
    unfolding binary64_def Let_def e r by simp
  then show ?thesis by (simp add: x_def assms(1))
qed

lemma binary64_3: "binary64 3 = Finite 3"
  using binary64_exact [of "1 / 2 ^ 51" 1 "3 * 2 ^ 51"] by (simp add: powr_minus)

lemma binary64_9: "binary64 9 = Finite 9"
  using binary64_exact [of "1 / 2 ^ 49" 3 "9 * 2 ^ 49"] by (simp add: powr_minus)

lemma binary64_16: "binary64 16 = Finite 16"
  using binary64_exact [of "1 / 2 ^ 48" 4 "2 ^ 52"] by (simp add: powr_minus)

lemma binary64_25: "binary64 25 = Finite 25"
  using binary64_exact [of "1 / 2 ^ 48" 4 "25 * 2 ^ 48"] by (simp add: powr_minus)

lemma binary64_50: "binary64 50 = Finite 50"
  using binary64_exact [of "1 / 2 ^ 47" 5 "50 * 2 ^ 47"] by (simp add: powr_minus)

lemma sqrt50_double: "binary64 (sqrt 50) = Finite (7961314590657216 / 2 ^ 50)"
proof -
  have "(7961314590657216 - 1 / 2) * (1 / 2 ^ 50) < sqrt 50
      \<and> sqrt 50 < (7961314590657216 + 1 / 2) * (1 / 2 ^ 50)"
    by (rule sqrt_between) (simp_all add: power2_eq_square)
  moreover have "4 < sqrt 50 \<and> sqrt 50 < 8"
    by (rule sqrt_between) (simp_all add: power2_eq_square)
  ultimately show ?thesis
    using binary64_between [of "1 / 2 ^ 50" 2 "sqrt 50" 7961314590657216]
    by (simp add: powr_minus)
qed

lemma loop_near_threshold:
  "compareLoop [Finite 1, Finite 1, Finite 0, Finite 0] [Finite 3, Finite 0, Finite 4, Finite 5] 0
     (Finite 0, Finite 0, Finite 0) = (Finite 3, Finite 2, Finite 50)"
  by (simp add: compareLoop.simps binary64_zero binary64_1 binary64_2 binary64_3 binary64_9
        binary64_16 binary64_25 binary64_50)

lemma score_near_threshold:
  "compareFaces \<lparr>descriptor = [Finite 1, Finite 1, Finite 0, Finite 0], timestamp = s\<rparr>
                \<lparr>descriptor = [Finite 3, Finite 0, Finite 4, Finite 5], timestamp = t\<rparr>
     = Finite (5854679515581644 / 2 ^ 53)"
proof -
  define r :: real where "r = 6369051672525773 / 2 ^ 52"
  define q :: real where "q = 7961314590657216 / 2 ^ 50"
  define p :: real where "p = 5629499534213121 / 2 ^ 49"
  define c :: real where "c = 5404319552844594 / 2 ^ 54"
  define d :: real where "d = 5854679515581644 / 2 ^ 52"
  define f :: real where "f = 5854679515581644 / 2 ^ 53"
  have 1: "js_sqrt (Finite 2) = Finite r" "js_sqrt (Finite 50) = Finite q"
    by (simp_all add: sqrt2_double sqrt50_double r_def q_def)
  have "binary64 (r * q) = Finite p"
    unfolding r_def q_def p_def
    using binary64_between [of "1 / 2 ^ 49" 3
            "6369051672525773 / 2 ^ 52 * (7961314590657216 / 2 ^ 50)" 5629499534213121]
    by (simp add: powr_minus)
  then have 2: "js_mul (Finite r) (Finite q) = Finite p" by simp
  have "binary64 (3 / p) = Finite c"
    unfolding p_def c_def
    using binary64_between [of "1 / 2 ^ 54" "-2" "3 / (5629499534213121 / 2 ^ 49)" 5404319552844594]
    by (simp add: powr_minus)
  moreover have "p \<noteq> 0" by (simp add: p_def)
  ultimately have 3: "js_div (Finite 3) (Finite p) = Finite c" by simp
  have "binary64 (c + 1) = Finite d"
    unfolding c_def d_def
    using binary64_tie [of "1 / 2 ^ 52" 0 5854679515581644]
    by (simp add: powr_minus)
  then have 4: "js_add (Finite c) (Finite 1) = Finite d" by simp
  have "binary64 (d / 2) = Finite f"
    unfolding d_def f_def
    using binary64_exact [of "1 / 2 ^ 53" "-1" 5854679515581644]
    by (simp add: powr_minus)
  then have 5: "js_div (Finite d) (Finite 2) = Finite f" by simp
  have nz: "\<not> js_eq (Finite r) (Finite 0)" "\<not> js_eq (Finite q) (Finite 0)"
    by (simp_all add: r_def q_def)
  show ?thesis
    unfolding compareFaces_def Let_def f_def [symmetric]
    by (simp only: FaceEmbedding.simps loop_near_threshold prod.case 1 2 3 4 5 nz) simp
qed

section \<open>Properties of the retry loop\<close>

declare attemptLoop.simps [simp del]

lemma attemptLoop_last: "maxRetries < a \<Longrightarrow> attemptLoop e a = ([], None)"
  by (subst attemptLoop.simps) simp

lemma attemptLoop_hit:
  "a \<le> maxRetries \<Longrightarrow> liveExtract e a = Some emb \<Longrightarrow>
   attemptLoop e a = (attemptEvents e a, Some emb)"
  by (subst attemptLoop.simps) simp

lemma attemptLoop_miss:
  "a \<le> maxRetries \<Longrightarrow> liveExtract e a = None \<Longrightarrow>
   attemptLoop e a =
     (attemptEvents e a @ (if a < maxRetries then [Delay 1500] else [])
        @ fst (attemptLoop e (Suc a)), snd (attemptLoop e (Suc a)))"
  by (subst attemptLoop.simps) (simp add: case_prod_beta)

lemma attemptLoop_success:
  assumes "a \<le> k" and "k \<le> maxRetries" and "liveExtract e k = Some emb"
    and "\<forall>j. a \<le> j \<and> j < k \<longrightarrow> liveExtract e j = None"
  shows "attemptLoop e a = (rounds e a k @ attemptEvents e k, Some emb)"
  using assms(1)
proof (induction rule: inc_induct)
  case base
  show ?case using assms(2,3) by (simp add: attemptLoop_hit rounds_def)
next
  case (step n)
  from step.hyps assms(2,4) have "n \<le> maxRetries" "n < maxRetries" "liveExtract e n = None"
    by auto
  with step show ?case
    by (simp add: attemptLoop_miss rounds_def upt_conv_Cons)
qed

lemma attemptLoop_exhausted:
  assumes "a \<le> maxRetries" and "\<forall>j. a \<le> j \<and> j \<le> maxRetries \<longrightarrow> liveExtract e j = None"
  shows "attemptLoop e a = (rounds e a maxRetries @ attemptEvents e maxRetries, None)"
  using assms(1)
proof (induction rule: inc_induct)
  case base
  from assms have "liveExtract e maxRetries = None" by simp
  then show ?case by (simp add: attemptLoop_miss attemptLoop_last rounds_def)
next
  case (step n)
  from step.hyps assms(2) have "n \<le> maxRetries" "n < maxRetries" "liveExtract e n = None"
    by auto
  with step show ?case
    by (simp add: attemptLoop_miss rounds_def upt_conv_Cons)
qed

lemma attempts_append: "attempts (xs @ ys) = attempts xs @ attempts ys"
  by (induction xs rule: attempts.induct) simp_all

lemma attempts_rounds: "attempts (rounds e a k) = [a..<k]"
  by (induction k) (simp_all add: rounds_def attempts_append attemptEvents_def)

lemma count_rounds: "count_list (rounds e a k) (Delay 1500) = k - a"
  by (induction k) (auto simp: rounds_def attemptEvents_def Suc_diff_le)

lemma attemptLoop_events: "x \<in> set (fst (attemptLoop e a)) \<Longrightarrow> isLoopEvent x"
proof (induction e a rule: attemptLoop.induct)
  case (1 e attempt)
  show ?case
  proof (cases "attempt \<le> maxRetries")
    case False
    with "1.prems" show ?thesis by (simp add: attemptLoop_last)
  next
    case le: True
    show ?thesis
    proof (cases "liveExtract e attempt")
      case (Some emb)
      with le "1.prems" show ?thesis
        by (auto simp: attemptLoop_hit attemptEvents_def)
    next
      case None
      with le "1.prems" "1.IH" show ?thesis
        by (auto simp: attemptLoop_miss attemptEvents_def split: if_splits)
    qed
  qed
qed

lemma attemptLoop_bound: "length (attempts (fst (attemptLoop e a))) \<le> Suc maxRetries - a"
proof (induction e a rule: attemptLoop.induct)
  case (1 e attempt)
  show ?case
  proof (cases "attempt \<le> maxRetries")
    case False
    then show ?thesis by (simp add: attemptLoop_last)
  next
    case le: True
    show ?thesis
    proof (cases "liveExtract e attempt")
      case (Some emb)
      with le show ?thesis
        by (simp add: attemptLoop_hit attemptEvents_def)
    next
      case None
      with le "1.IH" have "length (attempts (fst (attemptLoop e (attempt + 1)))) \<le> Suc maxRetries - (attempt + 1)"
        by simp
      with le None show ?thesis
        by (auto simp: attemptLoop_miss attemptLoop_last attemptEvents_def attempts_append)
    qed
  qed
qed


lemma last_attemptEvents: "last (xs @ attemptEvents e k) = LiveExtract k"
  by (simp add: attemptEvents_def)

lemma count_attemptEvents: "count_list (attemptEvents e k) (Delay 1500) = 0"
  by (simp add: attemptEvents_def)

lemma attempts_attemptEvents: "attempts (attemptEvents e k) = [k]"
  by (simp add: attemptEvents_def)

lemma count_failed: "count_list (failed ms) OnFailed = 1"
  by (simp add: failed_def)

lemma count_loop_OnFailed: "count_list (fst (attemptLoop e a)) OnFailed = 0"
  using attemptLoop_events [of OnFailed e a] by (auto simp: count_list_0_iff)

lemma loop_no_OnVerified: "OnVerified uid \<notin> set (fst (attemptLoop e a))"
  using attemptLoop_events [of "OnVerified uid" e a] by auto

lemma verifyFace_NoLiveFace:
  assumes "video_present e" and "query e rfidTag = (Some u, False)"
    and "\<not> (face_embedding u = NullEmbedding \<and> \<not> truthy (face_image_url u))"
    and "\<not> detectorLoading e" and "snd (attemptLoop e 1) = None"
  shows "verifyFace e rfidTag =
           (Rejected NoLiveFace, [Query rfidTag, Delay 1500] @ fst (attemptLoop e 1) @ failed 2000)"
  using assms by (cases "attemptLoop e 1") (auto simp: verifyFace_def)

lemmas run_simps =
  kiosk_def alice_def faceFrame_def emptyFrame_def blankFrame_def lit_def
  liveExtract_def liveFaces_def extractFaceEmbedding_def detectFaces_def videoRef_def
  attemptEvents_def rounds_def

section \<open>Properties of the string functions\<close>

lemma dquote_not_ws: "\<not> isWhiteSpace dquote"
  by (simp add: isWhiteSpace_def dquote_def)

lemma dropWhile_ws_quote:
  "\<forall>c\<in>set ws. isWhiteSpace c \<Longrightarrow> dropWhile isWhiteSpace (ws @ dquote # xs) = dquote # xs"
proof -
  assume "\<forall>c\<in>set ws. isWhiteSpace c"
  then have "dropWhile isWhiteSpace (ws @ dquote # xs) = dropWhile isWhiteSpace (dquote # xs)"
    by (intro dropWhile_append2) simp
  then show ?thesis by (simp add: dquote_not_ws)
qed

lemma trim_quoted:
  assumes "\<forall>c\<in>set l. isWhiteSpace c" and "\<forall>c\<in>set r. isWhiteSpace c"
  shows "trim (l @ dquote # url @ dquote # r) = dquote # url @ [dquote]"
proof -
  from assms(2) have r: "\<forall>c\<in>set (rev r). isWhiteSpace c" by simp
  have "rev (dquote # url @ dquote # r) = rev r @ dquote # rev url @ [dquote]"
    by simp
  then have "dropWhile isWhiteSpace (rev (dquote # url @ dquote # r)) = dquote # rev url @ [dquote]"
    by (simp only: dropWhile_ws_quote [OF r])
  then show ?thesis
    by (simp add: trim_def dropWhile_ws_quote [OF assms(1)])
qed

lemma cleanUrl_quoted:
  assumes "\<forall>c\<in>set l. isWhiteSpace c" and "\<forall>c\<in>set r. isWhiteSpace c"
  shows "cleanUrl (l @ dquote # url @ dquote # r) = url"
  by (simp add: cleanUrl_def Let_def trim_quoted [OF assms] startsWith_def endsWith_def
        slice_1_m1_def)


section \<open>Properties of \<open>verifyFace\<close>\<close>

lemma resolveReference_events:
  "x \<in> set (fst (resolveReference e u)) \<Longrightarrow> isResolveEvent x"
  by (auto simp: resolveReference_def extractEmbeddingFromImage_def Let_def
           split: if_splits image_result.splits option.splits)


lemma verifyFace_cases [case_names VideoMissing UserNotFound NoReferenceData ModelsNotReady
    NoLiveFace ResolveFails Scored]:
  obtains
    "\<not> video_present e" "verifyFace e rfidTag = (Rejected VideoMissing, [OnFailed])"
  | "video_present e" "\<forall>u. query e rfidTag \<noteq> (Some u, False)"
      "verifyFace e rfidTag = (Rejected UserNotFound, Query rfidTag # failed 2000)"
  | u where "video_present e" "query e rfidTag = (Some u, False)"
      "face_embedding u = NullEmbedding \<and> \<not> truthy (face_image_url u)"
      "verifyFace e rfidTag = (Rejected NoReferenceData, Query rfidTag # failed 2000)"
  | u where "video_present e" "query e rfidTag = (Some u, False)"
      "\<not> (face_embedding u = NullEmbedding \<and> \<not> truthy (face_image_url u))"
      "detectorLoading e"
      "verifyFace e rfidTag = (Rejected ModelsNotReady, [Query rfidTag, Delay 2000] @ failed 2000)"
  | u levs where "video_present e" "query e rfidTag = (Some u, False)"
      "\<not> (face_embedding u = NullEmbedding \<and> \<not> truthy (face_image_url u))"
      "\<not> detectorLoading e" "attemptLoop e 1 = (levs, None)"
      "verifyFace e rfidTag =
         (Rejected NoLiveFace, [Query rfidTag, Delay 1500] @ levs @ failed 2000)"
  | u levs cur revs r ms where "video_present e" "query e rfidTag = (Some u, False)"
      "\<not> (face_embedding u = NullEmbedding \<and> \<not> truthy (face_image_url u))"
      "\<not> detectorLoading e" "attemptLoop e 1 = (levs, Some cur)"
      "resolveReference e u = (revs, Inl (r, ms))"
      "verifyFace e rfidTag =
         (Rejected r, [Query rfidTag, Delay 1500] @ levs @ revs @ failed ms)"
  | u levs cur revs stored where "video_present e" "query e rfidTag = (Some u, False)"
      "\<not> (face_embedding u = NullEmbedding \<and> \<not> truthy (face_image_url u))"
      "\<not> detectorLoading e" "attemptLoop e 1 = (levs, Some cur)"
      "resolveReference e u = (revs, Inr stored)"
      "verifyFace e rfidTag =
         (fst (scoring u rfidTag stored cur),
          [Query rfidTag, Delay 1500] @ levs @ revs @ snd (scoring u rfidTag stored cur))"
proof (cases "video_present e")
  case False
  then have "verifyFace e rfidTag = (Rejected VideoMissing, [OnFailed])"
    by (simp add: verifyFace_def)
  with False show ?thesis by (rule that(1))
next
  case vp: True
  show ?thesis
  proof (cases "\<exists>u. query e rfidTag = (Some u, False)")
    case False
    then have none: "\<forall>u. query e rfidTag \<noteq> (Some u, False)" by blast
    obtain d err where q: "query e rfidTag = (d, err)" by (cases "query e rfidTag")
    with vp none have "verifyFace e rfidTag = (Rejected UserNotFound, Query rfidTag # failed 2000)"
      by (cases d; cases err) (simp_all add: verifyFace_def)
    with vp none show ?thesis by (rule that(2))
  next
    case True
    then obtain u where qu: "query e rfidTag = (Some u, False)" by blast
    show ?thesis
    proof (cases "face_embedding u = NullEmbedding \<and> \<not> truthy (face_image_url u)")
      case True
      with vp qu have "verifyFace e rfidTag = (Rejected NoReferenceData, Query rfidTag # failed 2000)"
        by (simp add: verifyFace_def)
      with vp qu True show ?thesis by (rule that(3))
    next
      case data: False
      show ?thesis
      proof (cases "detectorLoading e")
        case True
        with vp qu data have "verifyFace e rfidTag =
            (Rejected ModelsNotReady, [Query rfidTag, Delay 2000] @ failed 2000)"
          by (simp add: verifyFace_def)
        with vp qu data True show ?thesis by (rule that(4))
      next
        case ready: False
        from vp qu data ready have v: "verifyFace e rfidTag =
           (case attemptLoop e 1 of
              (levs, None) \<Rightarrow>
                (Rejected NoLiveFace, [Query rfidTag, Delay 1500] @ levs @ failed 2000)
            | (levs, Some currentEmbedding) \<Rightarrow>
                (case resolveReference e u of
                   (revs, Inl (r, ms)) \<Rightarrow>
                     (Rejected r, [Query rfidTag, Delay 1500] @ levs @ revs @ failed ms)
                 | (revs, Inr storedEmbedding) \<Rightarrow>
                     (case scoring u rfidTag storedEmbedding currentEmbedding of
                        (out, sevs) \<Rightarrow>
                          (out, [Query rfidTag, Delay 1500] @ levs @ revs @ sevs))))"
          by (auto simp add: verifyFace_def simp del: One_nat_def
                split: prod.splits option.splits sum.splits)
        obtain levs r where l: "attemptLoop e 1 = (levs, r)" by (cases "attemptLoop e 1")
        show ?thesis
        proof (cases r)
          case None
          with l have l': "attemptLoop e 1 = (levs, None)" by simp
          have "verifyFace e rfidTag =
              (Rejected NoLiveFace, [Query rfidTag, Delay 1500] @ levs @ failed 2000)"
            by (simp only: v l' prod.case option.case)
          with vp qu data ready l' show ?thesis by (rule that(5))
        next
          case (Some cur)
          with l have l': "attemptLoop e 1 = (levs, Some cur)" by simp
          obtain revs res where rr: "resolveReference e u = (revs, res)"
            by (cases "resolveReference e u")
          show ?thesis
          proof (cases res)
            case (Inl p)
            obtain rs ms where "p = (rs, ms)" by (cases p)
            with Inl rr have rr': "resolveReference e u = (revs, Inl (rs, ms))" by simp
            have "verifyFace e rfidTag =
                (Rejected rs, [Query rfidTag, Delay 1500] @ levs @ revs @ failed ms)"
              by (simp only: v l' rr' prod.case option.case sum.case)
            with vp qu data ready l' rr' show ?thesis by (rule that(6))
          next
            case (Inr stored)
            with rr have rr': "resolveReference e u = (revs, Inr stored)" by simp
            have "verifyFace e rfidTag =
                (fst (scoring u rfidTag stored cur),
                 [Query rfidTag, Delay 1500] @ levs @ revs @ snd (scoring u rfidTag stored cur))"
              by (simp only: v l' rr' prod.case option.case sum.case)
                 (simp add: case_prod_beta)
            with vp qu data ready l' rr' show ?thesis by (rule that(7))
          qed
        qed
      qed
    qed
  qed
qed

lemma verifyFace_scored:
  assumes "video_present e" and "query e rfidTag = (Some u, False)" and "\<not> detectorLoading e"
    and "attemptLoop e 1 = (levs, Some cur)"
    and "resolveReference e u = (revs, Inr (StoredEmbedding ref))"
  shows "verifyFace e rfidTag =
           (fst (scoring u rfidTag (StoredEmbedding ref) cur),
            [Query rfidTag, Delay 1500] @ levs @ revs
              @ snd (scoring u rfidTag (StoredEmbedding ref) cur))"
proof (cases e rfidTag rule: verifyFace_cases)
  case (Scored u' levs' cur' revs' stored')
  with assms show ?thesis by simp
next
  case (NoReferenceData u')
  with assms show ?thesis by (simp add: resolveReference_def)
qed (use assms in simp_all)


lemma query_id: "query e rfidTag = (Some u, err) \<Longrightarrow> id' u = rfidTag"
proof -
  assume q: "query e rfidTag = (Some u, err)"
  then have "filter (\<lambda>u. id' u = rfidTag) (users e) = [u]"
    by (auto simp: query_def maybeSingle_def split: if_splits list.splits)
  then have "u \<in> set (filter (\<lambda>u. id' u = rfidTag) (users e))"
    by simp
  then show "id' u = rfidTag" by simp
qed

lemma query_single:
  "\<not> query_error e \<Longrightarrow> users e = [u] \<Longrightarrow> id' u = rfidTag \<Longrightarrow> query e rfidTag = (Some u, False)"
  by (simp add: query_def maybeSingle_def)

lemma scoring_Matched:
  "fst (scoring u rfidTag stored cur) = Matched uid \<longleftrightarrow>
   (\<exists>ref. stored = StoredEmbedding ref
      \<and> js_ge (compareFaces ref cur) SIMILARITY_THRESHOLD \<and> uid = id' u)"
  by (auto simp: scoring_def Let_def failed_def split: stored_embedding.splits)

lemma js_lt_not_ge: "js_lt a b \<Longrightarrow> \<not> js_ge a b"
  by (cases a; cases b) simp_all

lemma audits_append: "audits (xs @ ys) = audits xs @ audits ys"
  by (induction xs rule: audits.induct) simp_all

lemma audits_loop_events: "\<forall>x\<in>set xs. isLoopEvent x \<Longrightarrow> audits xs = []"
  by (induction xs rule: audits.induct) simp_all

lemma audits_resolve_events: "\<forall>x\<in>set xs. isResolveEvent x \<Longrightarrow> audits xs = []"
  by (induction xs rule: audits.induct) simp_all

lemma audits_attemptLoop: "attemptLoop e a = (levs, r) \<Longrightarrow> audits levs = []"
  using attemptLoop_events [of _ e a] by (intro audits_loop_events) auto

lemma audits_resolveReference: "resolveReference e u = (revs, r) \<Longrightarrow> audits revs = []"
  using resolveReference_events [of _ e u] by (intro audits_resolve_events) auto

lemma audits_failed: "audits (failed ms) = []"
  by (simp add: failed_def)

lemma audits_scoring:
  "audits (snd (scoring u rfidTag stored cur)) =
     (case fst (scoring u rfidTag stored cur) of
        Matched uid \<Rightarrow>
          [\<lparr>user_id = uid, rfid_tag = rfidTag, face_verified = True, rfid_verified = True\<rparr>]
      | Rejected r \<Rightarrow> [])"
  by (simp add: scoring_def Let_def failed_def split: stored_embedding.splits)

lemma audits_startCamera: "startCamera e = Some cevs \<Longrightarrow> audits cevs = []"
proof -
  have "audits (replicate n (Delay 100)) = []" for n
    by (induction n) simp_all
  then show "startCamera e = Some cevs \<Longrightarrow> audits cevs = []"
    by (auto simp: startCamera_def audits_append split: if_splits option.splits)
qed

lemma audits_verifyFace:
  "audits (snd (verifyFace e rfidTag)) =
     (case fst (verifyFace e rfidTag) of
        Matched uid \<Rightarrow>
          [\<lparr>user_id = uid, rfid_tag = rfidTag, face_verified = True, rfid_verified = True\<rparr>]
      | Rejected r \<Rightarrow> [])"
proof (cases e rfidTag rule: verifyFace_cases)
  case (NoLiveFace u levs)
  then show ?thesis by (simp add: audits_append audits_attemptLoop audits_failed)
next
  case (ResolveFails u levs cur revs r ms)
  then show ?thesis
    by (simp add: audits_append audits_attemptLoop audits_resolveReference audits_failed)
next
  case (Scored u levs cur revs stored)
  then show ?thesis
    by (simp add: audits_append audits_attemptLoop audits_resolveReference audits_scoring)
qed (simp_all add: audits_failed)




lemma failed_not_live: "x \<in> set (failed ms) \<Longrightarrow> \<not> isLive x \<and> \<not> isResolve x"
  by (auto simp: failed_def)




lemma continuations_loop_events:
  "\<forall>x\<in>set xs. isLoopEvent x \<Longrightarrow> filter isContinuation xs = []"
proof -
  have "isLoopEvent x \<Longrightarrow> \<not> isContinuation x" for x by (cases x) simp_all
  then show "\<forall>x\<in>set xs. isLoopEvent x \<Longrightarrow> filter isContinuation xs = []"
    by (auto simp: filter_empty_conv)
qed

lemma continuations_resolve_events:
  "\<forall>x\<in>set xs. isResolveEvent x \<Longrightarrow> filter isContinuation xs = []"
proof -
  have "isResolveEvent x \<Longrightarrow> \<not> isContinuation x" for x by (cases x) simp_all
  then show "\<forall>x\<in>set xs. isResolveEvent x \<Longrightarrow> filter isContinuation xs = []"
    by (auto simp: filter_empty_conv)
qed

lemma continuations_attemptLoop:
  "attemptLoop e a = (levs, r) \<Longrightarrow> filter isContinuation levs = []"
  using attemptLoop_events [of _ e a] by (intro continuations_loop_events) auto

lemma continuations_resolveReference:
  "resolveReference e u = (revs, r) \<Longrightarrow> filter isContinuation revs = []"
  using resolveReference_events [of _ e u] by (intro continuations_resolve_events) auto

lemma continuations_scoring:
  "length (filter isContinuation (snd (scoring u rfidTag stored cur))) = 1"
  by (simp add: scoring_def Let_def failed_def split: stored_embedding.splits)

lemma verifyFace_fires_once:
  "length (filter isContinuation (snd (verifyFace e rfidTag))) = 1"
proof (cases e rfidTag rule: verifyFace_cases)
  case (NoLiveFace u levs)
  then show ?thesis by (simp add: continuations_attemptLoop failed_def)
next
  case (ResolveFails u levs cur revs r ms)
  then show ?thesis
    by (simp add: continuations_attemptLoop continuations_resolveReference failed_def)
next
  case (Scored u levs cur revs stored)
  then show ?thesis
    by (simp add: continuations_attemptLoop continuations_resolveReference continuations_scoring)
qed (simp_all add: failed_def)

lemma camera_failure_fires_twice:
  assumes "\<not> getUserMedia_ok e"
  shows "\<exists>out evs. startVerification e rfidTag = Some (out, evs)
           \<and> take 2 evs = [GetUserMedia, OnFailed]
           \<and> length (filter isContinuation evs) = 2"
proof -
  from assms have "startVerification e rfidTag =
      Some (fst (verifyFace e rfidTag),
            [GetUserMedia, OnFailed] @ [SetIsVerifying, Hold 3500] @ snd (verifyFace e rfidTag))"
    by (simp add: startVerification_def startCamera_def case_prod_beta)
  then show ?thesis by (simp add: verifyFace_fires_once)
qed


section \<open>The concrete runs\<close>

lemmas env_simps = seesAlice_def seesStranger_def seesBob_def seesCarol_def cameraDenied_def
  bobImage_def carol_def bob_def

lemma attemptLoop_first:
  "liveExtract e 1 = Some emb \<Longrightarrow> attemptLoop e 1 = (attemptEvents e 1, Some emb)"
  by (rule attemptLoop_hit) (simp_all add: maxRetries_def)

lemma loop_seesAlice:
  "attemptLoop seesAlice 1 =
     ([LiveDetect 1, SetFaceDetected True, LiveExtract 1],
      Some \<lparr>descriptor = [Finite 1, Finite 0], timestamp = 1000\<rparr>)"
proof -
  have "liveExtract seesAlice 1 = Some \<lparr>descriptor = [Finite 1, Finite 0], timestamp = 1000\<rparr>"
    by (simp add: run_simps env_simps)
  then have "attemptLoop seesAlice 1 =
      (attemptEvents seesAlice 1, Some \<lparr>descriptor = [Finite 1, Finite 0], timestamp = 1000\<rparr>)"
    by (rule attemptLoop_first)
  moreover have "attemptEvents seesAlice 1 = [LiveDetect 1, SetFaceDetected True, LiveExtract 1]"
    by (simp add: run_simps env_simps)
  ultimately show ?thesis by (simp only:)
qed

lemma loop_seesStranger:
  "attemptLoop seesStranger 1 =
     ([LiveDetect 1, SetFaceDetected True, LiveExtract 1],
      Some \<lparr>descriptor = [Finite 0, Finite 1], timestamp = 1000\<rparr>)"
proof -
  have "liveExtract seesStranger 1 = Some \<lparr>descriptor = [Finite 0, Finite 1], timestamp = 1000\<rparr>"
    by (simp add: run_simps env_simps)
  then have "attemptLoop seesStranger 1 =
      (attemptEvents seesStranger 1, Some \<lparr>descriptor = [Finite 0, Finite 1], timestamp = 1000\<rparr>)"
    by (rule attemptLoop_first)
  moreover have "attemptEvents seesStranger 1 = [LiveDetect 1, SetFaceDetected True, LiveExtract 1]"
    by (simp add: run_simps env_simps)
  ultimately show ?thesis by (simp only:)
qed



lemma loop_cameraDenied:
  "attemptLoop cameraDenied 1 =
     ([LiveDetect 1, SetFaceDetected False, LiveExtract 1, Delay 1500,
       LiveDetect 2, SetFaceDetected False, LiveExtract 2, Delay 1500,
       LiveDetect 3, SetFaceDetected False, LiveExtract 3, Delay 1500,
       LiveDetect 4, SetFaceDetected False, LiveExtract 4, Delay 1500,
       LiveDetect 5, SetFaceDetected False, LiveExtract 5, Delay 1500,
       LiveDetect 6, SetFaceDetected False, LiveExtract 6, Delay 1500,
       LiveDetect 7, SetFaceDetected False, LiveExtract 7, Delay 1500,
       LiveDetect 8, SetFaceDetected False, LiveExtract 8, Delay 1500,
       LiveDetect 9, SetFaceDetected False, LiveExtract 9, Delay 1500,
       LiveDetect 10, SetFaceDetected False, LiveExtract 10], None)"
proof -
  have "\<forall>j. 1 \<le> j \<and> j \<le> maxRetries \<longrightarrow> liveExtract cameraDenied j = None"
    by (simp add: run_simps env_simps)
  then have "attemptLoop cameraDenied 1 =
      (rounds cameraDenied 1 maxRetries @ attemptEvents cameraDenied maxRetries, None)"
    by (intro attemptLoop_exhausted) (simp_all add: maxRetries_def)
  moreover have "rounds cameraDenied 1 maxRetries @ attemptEvents cameraDenied maxRetries =
      [LiveDetect 1, SetFaceDetected False, LiveExtract 1, Delay 1500,
       LiveDetect 2, SetFaceDetected False, LiveExtract 2, Delay 1500,
       LiveDetect 3, SetFaceDetected False, LiveExtract 3, Delay 1500,
       LiveDetect 4, SetFaceDetected False, LiveExtract 4, Delay 1500,
       LiveDetect 5, SetFaceDetected False, LiveExtract 5, Delay 1500,
       LiveDetect 6, SetFaceDetected False, LiveExtract 6, Delay 1500,
       LiveDetect 7, SetFaceDetected False, LiveExtract 7, Delay 1500,
       LiveDetect 8, SetFaceDetected False, LiveExtract 8, Delay 1500,
       LiveDetect 9, SetFaceDetected False, LiveExtract 9, Delay 1500,
       LiveDetect 10, SetFaceDetected False, LiveExtract 10]"
    by (simp add: run_simps env_simps maxRetries_def upt_rec)
  ultimately show ?thesis by (simp only:)
qed

lemma query_seesAlice: "query seesAlice (lit ''A1'') = (Some alice, False)"
  by (rule query_single) (simp_all add: env_simps kiosk_def alice_def)

lemma query_seesStranger: "query seesStranger (lit ''A1'') = (Some alice, False)"
  by (rule query_single) (simp_all add: env_simps kiosk_def alice_def)



lemma resolve_alice:
  "resolveReference e alice = ([], Inr (StoredEmbedding \<lparr>descriptor = [Finite 1, Finite 0], timestamp = 0\<rparr>))"
  by (simp add: resolveReference_def alice_def)




lemma score_alice_alice:
  "compareFaces \<lparr>descriptor = [Finite 1, Finite 0], timestamp = 0\<rparr>
     \<lparr>descriptor = [Finite 1, Finite 0], timestamp = 1000\<rparr> = Finite 1"
  by (rule score_same_unit)

lemma score_alice_stranger:
  "compareFaces \<lparr>descriptor = [Finite 1, Finite 0], timestamp = 0\<rparr>
     \<lparr>descriptor = [Finite 0, Finite 1], timestamp = 1000\<rparr> = Finite (1 / 2)"
  by (rule score_orthogonal)

lemma threshold_value: "SIMILARITY_THRESHOLD = Finite (5854679515581645 / 2 ^ 53)"
  unfolding SIMILARITY_THRESHOLD_def by (rule threshold_double)

lemma threshold_between:
  "js_ge (Finite 1) SIMILARITY_THRESHOLD" "\<not> js_ge (Finite (1 / 2)) SIMILARITY_THRESHOLD"
  by (simp_all add: threshold_value)










section \<open>The claims\<close>

text \<open>
  Claim C1. In the scoring step the outcome is decided by comparing the score that
  \<open>compareFaces\<close> computes for the resolved reference and the live embedding with the
  double 0.65: when the score is greater than or equal to it, the step ends matched,
  inserts the verification event and, after 3000 ms, calls \<open>onVerified\<close> with the id of the
  user; when the score is strictly below it, the step ends rejected below the threshold
  and, after 3000 ms, calls \<open>onFailed\<close>. The step ends matched in no other way.
\<close>

theorem scoring_decides:
  "(js_ge (compareFaces ref cur) SIMILARITY_THRESHOLD \<longrightarrow>
      scoring u rfidTag (StoredEmbedding ref) cur =
        (Matched (id' u),
         [SetVerificationStatus Success,
          Insert \<lparr>user_id = id' u, rfid_tag = rfidTag,
                  face_verified = True, rfid_verified = True\<rparr>,
          Hold 3000, StopCamera, OnVerified (id' u)]))
   \<and> (js_lt (compareFaces ref cur) SIMILARITY_THRESHOLD \<longrightarrow>
      scoring u rfidTag (StoredEmbedding ref) cur =
        (Rejected BelowThreshold,
         [SetVerificationStatus Failed, Hold 3000, StopCamera, OnFailed]))
   \<and> (fst (scoring u rfidTag stored cur) = Matched uid \<longrightarrow>
        (\<exists>ref'. stored = StoredEmbedding ref'
           \<and> js_ge (compareFaces ref' cur) SIMILARITY_THRESHOLD \<and> uid = id' u))
   \<and> SIMILARITY_THRESHOLD = Finite (5854679515581645 / 2 ^ 53)"
proof (intro conjI impI)
  assume "js_ge (compareFaces ref cur) SIMILARITY_THRESHOLD"
  then show "scoring u rfidTag (StoredEmbedding ref) cur =
        (Matched (id' u),
         [SetVerificationStatus Success,
          Insert \<lparr>user_id = id' u, rfid_tag = rfidTag,
                  face_verified = True, rfid_verified = True\<rparr>,
          Hold 3000, StopCamera, OnVerified (id' u)])"
    by (simp add: scoring_def)
next
  assume "js_lt (compareFaces ref cur) SIMILARITY_THRESHOLD"
  then have "\<not> js_ge (compareFaces ref cur) SIMILARITY_THRESHOLD"
    by (rule js_lt_not_ge)
  then show "scoring u rfidTag (StoredEmbedding ref) cur =
        (Rejected BelowThreshold,
         [SetVerificationStatus Failed, Hold 3000, StopCamera, OnFailed])"
    by (simp add: scoring_def)
next
  assume "fst (scoring u rfidTag stored cur) = Matched uid"
  then show "\<exists>ref'. stored = StoredEmbedding ref'
           \<and> js_ge (compareFaces ref' cur) SIMILARITY_THRESHOLD \<and> uid = id' u"
    by (simp add: scoring_Matched)
next
  show "SIMILARITY_THRESHOLD = Finite (5854679515581645 / 2 ^ 53)"
    by (rule threshold_value)
qed

theorem scoring_decides_witness:
  "scoring alice (lit ''A1'')
     (StoredEmbedding \<lparr>descriptor = [Finite 1, Finite 0], timestamp = 0\<rparr>)
     \<lparr>descriptor = [Finite 1, Finite 0], timestamp = 1000\<rparr> =
     (Matched (id' alice),
      [SetVerificationStatus Success,
       Insert \<lparr>user_id = id' alice, rfid_tag = lit ''A1'',
               face_verified = True, rfid_verified = True\<rparr>,
       Hold 3000, StopCamera, OnVerified (id' alice)])
   \<and> compareFaces \<lparr>descriptor = [Finite 1, Finite 1, Finite 0, Finite 0], timestamp = 0\<rparr>
        \<lparr>descriptor = [Finite 3, Finite 0, Finite 4, Finite 5], timestamp = 1000\<rparr>
       = Finite (5854679515581644 / 2 ^ 53)
   \<and> scoring alice (lit ''A1'')
     (StoredEmbedding \<lparr>descriptor = [Finite 1, Finite 1, Finite 0, Finite 0], timestamp = 0\<rparr>)
     \<lparr>descriptor = [Finite 3, Finite 0, Finite 4, Finite 5], timestamp = 1000\<rparr> =
     (Rejected BelowThreshold,
      [SetVerificationStatus Failed, Hold 3000, StopCamera, OnFailed])"
proof -
  have ge: "js_ge (compareFaces \<lparr>descriptor = [Finite 1, Finite 0], timestamp = 0\<rparr>
               \<lparr>descriptor = [Finite 1, Finite 0], timestamp = 1000\<rparr>) SIMILARITY_THRESHOLD"
    by (simp add: score_alice_alice threshold_between)
  have near: "compareFaces \<lparr>descriptor = [Finite 1, Finite 1, Finite 0, Finite 0], timestamp = 0\<rparr>
        \<lparr>descriptor = [Finite 3, Finite 0, Finite 4, Finite 5], timestamp = 1000\<rparr>
       = Finite (5854679515581644 / 2 ^ 53)"
    by (rule score_near_threshold)
  have lt: "js_lt (compareFaces \<lparr>descriptor = [Finite 1, Finite 1, Finite 0, Finite 0], timestamp = 0\<rparr>
        \<lparr>descriptor = [Finite 3, Finite 0, Finite 4, Finite 5], timestamp = 1000\<rparr>)
       SIMILARITY_THRESHOLD"
    unfolding near by (simp add: threshold_value)
  from scoring_decides
         [of "\<lparr>descriptor = [Finite 1, Finite 0], timestamp = 0\<rparr>"
             "\<lparr>descriptor = [Finite 1, Finite 0], timestamp = 1000\<rparr>" alice "lit ''A1''"] ge
  have a: "scoring alice (lit ''A1'')
     (StoredEmbedding \<lparr>descriptor = [Finite 1, Finite 0], timestamp = 0\<rparr>)
     \<lparr>descriptor = [Finite 1, Finite 0], timestamp = 1000\<rparr> =
     (Matched (id' alice),
      [SetVerificationStatus Success,
       Insert \<lparr>user_id = id' alice, rfid_tag = lit ''A1'',
               face_verified = True, rfid_verified = True\<rparr>,
       Hold 3000, StopCamera, OnVerified (id' alice)])"
    by blast
  from scoring_decides
         [of "\<lparr>descriptor = [Finite 1, Finite 1, Finite 0, Finite 0], timestamp = 0\<rparr>"
             "\<lparr>descriptor = [Finite 3, Finite 0, Finite 4, Finite 5], timestamp = 1000\<rparr>"
             alice "lit ''A1''"] lt
  have b: "scoring alice (lit ''A1'')
     (StoredEmbedding \<lparr>descriptor = [Finite 1, Finite 1, Finite 0, Finite 0], timestamp = 0\<rparr>)
     \<lparr>descriptor = [Finite 3, Finite 0, Finite 4, Finite 5], timestamp = 1000\<rparr> =
     (Rejected BelowThreshold,
      [SetVerificationStatus Failed, Hold 3000, StopCamera, OnFailed])"
    by blast
  from a near b show ?thesis by blast
qed


text \<open>
  Claim C3. The loop makes at most 10 extraction attempts. When attempt \<open>k\<close> is the first to
  succeed, the loop ran the attempts 1 to \<open>k\<close> in order, waited 1500 ms after each of the
  \<open>k - 1\<close> failed ones and ended with the extraction of attempt \<open>k\<close>: no attempt and no delay
  follows it. When all 10 attempts fail there are 9 delays, none after the last attempt,
  and \<open>verifyFace\<close> ends rejected for want of a live face, calling \<open>onFailed\<close> once and
  \<open>onVerified\<close> never.
\<close>

theorem retry_policy:
  "length (attempts (fst (attemptLoop e 1))) \<le> 10
   \<and> (1 \<le> k \<and> k \<le> 10 \<and> liveExtract e k = Some emb
        \<and> (\<forall>j. 1 \<le> j \<and> j < k \<longrightarrow> liveExtract e j = None) \<longrightarrow>
      attemptLoop e 1 = (rounds e 1 k @ attemptEvents e k, Some emb)
      \<and> attempts (fst (attemptLoop e 1)) = [1..<Suc k]
      \<and> count_list (fst (attemptLoop e 1)) (Delay 1500) = k - 1
      \<and> last (fst (attemptLoop e 1)) = LiveExtract k)
   \<and> ((\<forall>j. 1 \<le> j \<and> j \<le> 10 \<longrightarrow> liveExtract e j = None) \<longrightarrow>
      attemptLoop e 1 = (rounds e 1 10 @ attemptEvents e 10, None)
      \<and> attempts (fst (attemptLoop e 1)) = [1..<11]
      \<and> count_list (fst (attemptLoop e 1)) (Delay 1500) = 9
      \<and> last (fst (attemptLoop e 1)) = LiveExtract 10
      \<and> (video_present e \<and> query e rfidTag = (Some u, False)
           \<and> \<not> (face_embedding u = NullEmbedding \<and> \<not> truthy (face_image_url u))
           \<and> \<not> detectorLoading e \<longrightarrow>
         verifyFace e rfidTag =
           (Rejected NoLiveFace, [Query rfidTag, Delay 1500] @ fst (attemptLoop e 1) @ failed 2000)
         \<and> count_list (snd (verifyFace e rfidTag)) OnFailed = 1
         \<and> (\<forall>uid. OnVerified uid \<notin> set (snd (verifyFace e rfidTag)))))"
proof (intro conjI impI)
  show "length (attempts (fst (attemptLoop e 1))) \<le> 10"
    using attemptLoop_bound [of e 1] by (simp add: maxRetries_def)
next
  assume h: "1 \<le> k \<and> k \<le> 10 \<and> liveExtract e k = Some emb
        \<and> (\<forall>j. 1 \<le> j \<and> j < k \<longrightarrow> liveExtract e j = None)"
  then show eq: "attemptLoop e 1 = (rounds e 1 k @ attemptEvents e k, Some emb)"
    by (intro attemptLoop_success) (simp_all add: maxRetries_def)
  have "attempts (fst (attemptLoop e 1)) = [1..<k] @ [k]"
    by (simp only: eq fst_conv attempts_append attempts_rounds attempts_attemptEvents)
  with h show "attempts (fst (attemptLoop e 1)) = [1..<Suc k]"
    by simp
  have "count_list (rounds e 1 k @ attemptEvents e k) (Delay 1500) = k - 1"
    by (simp add: count_rounds count_attemptEvents)
  then show "count_list (fst (attemptLoop e 1)) (Delay 1500) = k - 1"
    by (simp only: eq fst_conv)
  show "last (fst (attemptLoop e 1)) = LiveExtract k"
    by (simp only: eq fst_conv last_attemptEvents)
next
  assume h: "\<forall>j. 1 \<le> j \<and> j \<le> 10 \<longrightarrow> liveExtract e j = None"
  then have "attemptLoop e 1 = (rounds e 1 maxRetries @ attemptEvents e maxRetries, None)"
    by (intro attemptLoop_exhausted) (simp_all add: maxRetries_def)
  then show eq: "attemptLoop e 1 = (rounds e 1 10 @ attemptEvents e 10, None)"
    by (simp add: maxRetries_def)
  have "[1..<11] = [1..<10] @ [10::nat]"
    using upt_Suc_append [of 1 10] by simp
  then have "attempts (rounds e 1 10 @ attemptEvents e 10) = [1..<11]"
    by (simp only: attempts_append attempts_rounds attempts_attemptEvents)
  then show "attempts (fst (attemptLoop e 1)) = [1..<11]"
    by (simp only: eq fst_conv)
  have "count_list (rounds e 1 10 @ attemptEvents e 10) (Delay 1500) = 9"
    by (simp add: count_rounds count_attemptEvents)
  then show "count_list (fst (attemptLoop e 1)) (Delay 1500) = 9"
    by (simp only: eq fst_conv)
  show "last (fst (attemptLoop e 1)) = LiveExtract 10"
    by (simp only: eq fst_conv last_attemptEvents)
  assume r: "video_present e \<and> query e rfidTag = (Some u, False)
           \<and> \<not> (face_embedding u = NullEmbedding \<and> \<not> truthy (face_image_url u))
           \<and> \<not> detectorLoading e"
  from eq have none: "snd (attemptLoop e 1) = None" by simp
  from r none show v: "verifyFace e rfidTag =
           (Rejected NoLiveFace, [Query rfidTag, Delay 1500] @ fst (attemptLoop e 1) @ failed 2000)"
    by (intro verifyFace_NoLiveFace) blast+
  have "count_list ([Query rfidTag, Delay 1500] @ fst (attemptLoop e 1) @ failed 2000) OnFailed = 1"
    by (simp add: count_loop_OnFailed count_failed)
  then show "count_list (snd (verifyFace e rfidTag)) OnFailed = 1"
    by (simp only: v snd_conv)
  show "\<forall>uid. OnVerified uid \<notin> set (snd (verifyFace e rfidTag))"
    unfolding v snd_conv by (simp add: loop_no_OnVerified failed_def)
qed

theorem retry_policy_witness:
  "attemptLoop (kiosk [alice] (faceAfter 5) (\<lambda>url. LoadFails)) 1 =
     ([LiveDetect 1, SetFaceDetected False, LiveExtract 1, Delay 1500,
       LiveDetect 2, SetFaceDetected False, LiveExtract 2, Delay 1500,
       LiveDetect 3, SetFaceDetected False, LiveExtract 3],
      Some \<lparr>descriptor = [Finite 0, Finite 1], timestamp = 1000\<rparr>)
   \<and> attempts (fst (attemptLoop (kiosk [alice] (faceAfter 5) (\<lambda>url. LoadFails)) 1)) = [1, 2, 3]
   \<and> count_list (fst (attemptLoop (kiosk [alice] (faceAfter 5) (\<lambda>url. LoadFails)) 1)) (Delay 1500) = 2
   \<and> attempts (fst (attemptLoop (kiosk [alice] (\<lambda>k. emptyFrame) (\<lambda>url. LoadFails)) 1))
       = [1, 2, 3, 4, 5, 6, 7, 8, 9, 10]
   \<and> count_list (fst (attemptLoop (kiosk [alice] (\<lambda>k. emptyFrame) (\<lambda>url. LoadFails)) 1)) (Delay 1500) = 9
   \<and> fst (verifyFace (kiosk [alice] (\<lambda>k. emptyFrame) (\<lambda>url. LoadFails)) (lit ''A1''))
       = Rejected NoLiveFace
   \<and> count_list (snd (verifyFace (kiosk [alice] (\<lambda>k. emptyFrame) (\<lambda>url. LoadFails)) (lit ''A1''))) OnFailed = 1"
proof -
  let ?e3 = "kiosk [alice] (faceAfter 5) (\<lambda>url. LoadFails)"
  let ?e0 = "kiosk [alice] (\<lambda>k. emptyFrame) (\<lambda>url. LoadFails)"
  have hit: "liveExtract ?e3 3 = Some \<lparr>descriptor = [Finite 0, Finite 1], timestamp = 1000\<rparr>"
    by (simp add: run_simps faceAfter_def)
  have miss: "\<forall>j. 1 \<le> j \<and> j < 3 \<longrightarrow> liveExtract ?e3 j = None"
  proof (intro allI impI)
    fix j :: nat assume "1 \<le> j \<and> j < 3"
    then have "2 * j - 1 < 5" by linarith
    then show "liveExtract ?e3 j = None"
      by (simp add: run_simps faceAfter_def)
  qed
  have none: "\<forall>j. 1 \<le> j \<and> j \<le> 10 \<longrightarrow> liveExtract ?e0 j = None"
    by (simp add: run_simps)
  have q: "query ?e0 (lit ''A1'') = (Some alice, False)"
    by (simp add: query_def maybeSingle_def kiosk_def alice_def lit_def)
  have a: "\<not> (face_embedding alice = NullEmbedding \<and> \<not> truthy (face_image_url alice))"
    by (simp add: alice_def)
  have s: "video_present ?e0 \<and> \<not> detectorLoading ?e0"
    by (simp add: kiosk_def)
  have b: "(1::nat) \<le> 3 \<and> (3::nat) \<le> 10" by simp
  from retry_policy [of ?e3 3 "\<lparr>descriptor = [Finite 0, Finite 1], timestamp = 1000\<rparr>"] hit miss b
  have three: "attemptLoop ?e3 1 = (rounds ?e3 1 3 @ attemptEvents ?e3 3,
                  Some \<lparr>descriptor = [Finite 0, Finite 1], timestamp = 1000\<rparr>)
      \<and> attempts (fst (attemptLoop ?e3 1)) = [1..<Suc 3]
      \<and> count_list (fst (attemptLoop ?e3 1)) (Delay 1500) = 3 - 1"
    by blast
  from retry_policy [of ?e0 _ _ "lit ''A1''" alice] none q a s
  have ten: "attempts (fst (attemptLoop ?e0 1)) = [1..<11]
      \<and> count_list (fst (attemptLoop ?e0 1)) (Delay 1500) = 9
      \<and> verifyFace ?e0 (lit ''A1'') =
           (Rejected NoLiveFace, [Query (lit ''A1''), Delay 1500] @ fst (attemptLoop ?e0 1) @ failed 2000)
      \<and> count_list (snd (verifyFace ?e0 (lit ''A1''))) OnFailed = 1"
    by blast
  have r3: "rounds ?e3 1 3 @ attemptEvents ?e3 3 =
     [LiveDetect 1, SetFaceDetected False, LiveExtract 1, Delay 1500,
       LiveDetect 2, SetFaceDetected False, LiveExtract 2, Delay 1500,
       LiveDetect 3, SetFaceDetected False, LiveExtract 3]"
    by (simp add: run_simps faceAfter_def upt_rec)
  have u3: "[1..<Suc 3] = [1, 2, 3]" and u10: "[1..<11] = [1, 2, 3, 4, 5, 6, 7, 8, 9, 10::nat]"
    by (simp_all add: upt_rec)
  from three have t1: "attemptLoop ?e3 1 = (rounds ?e3 1 3 @ attemptEvents ?e3 3,
                  Some \<lparr>descriptor = [Finite 0, Finite 1], timestamp = 1000\<rparr>)"
    and t2: "attempts (fst (attemptLoop ?e3 1)) = [1..<Suc 3]"
    and t3: "count_list (fst (attemptLoop ?e3 1)) (Delay 1500) = 3 - 1"
    by blast+
  from ten have n1: "attempts (fst (attemptLoop ?e0 1)) = [1..<11]"
    and n2: "count_list (fst (attemptLoop ?e0 1)) (Delay 1500) = 9"
    and n3: "verifyFace ?e0 (lit ''A1'') =
           (Rejected NoLiveFace, [Query (lit ''A1''), Delay 1500] @ fst (attemptLoop ?e0 1) @ failed 2000)"
    and n4: "count_list (snd (verifyFace ?e0 (lit ''A1''))) OnFailed = 1"
    by blast+
  show ?thesis
  proof (intro conjI)
    show "attemptLoop ?e3 1 =
     ([LiveDetect 1, SetFaceDetected False, LiveExtract 1, Delay 1500,
       LiveDetect 2, SetFaceDetected False, LiveExtract 2, Delay 1500,
       LiveDetect 3, SetFaceDetected False, LiveExtract 3],
      Some \<lparr>descriptor = [Finite 0, Finite 1], timestamp = 1000\<rparr>)"
      using t1 by (simp only: r3)
    show "attempts (fst (attemptLoop ?e3 1)) = [1, 2, 3]"
      using t2 by (simp only: u3)
    show "count_list (fst (attemptLoop ?e3 1)) (Delay 1500) = 2"
      using t3 by simp
    show "attempts (fst (attemptLoop ?e0 1)) = [1, 2, 3, 4, 5, 6, 7, 8, 9, 10]"
      using n1 by (simp only: u10)
    show "count_list (fst (attemptLoop ?e0 1)) (Delay 1500) = 9"
      by (fact n2)
    show "fst (verifyFace ?e0 (lit ''A1'')) = Rejected NoLiveFace"
      by (simp only: n3 fst_conv)
    show "count_list (snd (verifyFace ?e0 (lit ''A1''))) OnFailed = 1"
      by (fact n4)
  qed
qed




text \<open>
  Claim C5 fails on the code. When \<open>getUserMedia\<close> rejects, \<open>startCamera\<close> calls \<open>onFailed\<close>
  at once, with no delay, and \<open>startVerification\<close> goes on all the same: 3500 ms later
  \<open>verifyFace\<close> runs, finds no face in ten attempts and calls \<open>onFailed\<close> a second time.
\<close>

theorem camera_failure_run:
  "startVerification cameraDenied (lit ''A1'') =
     Some (Rejected NoLiveFace,
       [GetUserMedia, OnFailed, SetIsVerifying, Hold 3500,
        Query (lit ''A1''), Delay 1500,
        LiveDetect 1, SetFaceDetected False, LiveExtract 1, Delay 1500,
        LiveDetect 2, SetFaceDetected False, LiveExtract 2, Delay 1500,
        LiveDetect 3, SetFaceDetected False, LiveExtract 3, Delay 1500,
        LiveDetect 4, SetFaceDetected False, LiveExtract 4, Delay 1500,
        LiveDetect 5, SetFaceDetected False, LiveExtract 5, Delay 1500,
        LiveDetect 6, SetFaceDetected False, LiveExtract 6, Delay 1500,
        LiveDetect 7, SetFaceDetected False, LiveExtract 7, Delay 1500,
        LiveDetect 8, SetFaceDetected False, LiveExtract 8, Delay 1500,
        LiveDetect 9, SetFaceDetected False, LiveExtract 9, Delay 1500,
        LiveDetect 10, SetFaceDetected False, LiveExtract 10,
        SetVerificationStatus Failed, Hold 2000, StopCamera, OnFailed])
   \<and> map_option (\<lambda>r. filter isContinuation (snd r)) (startVerification cameraDenied (lit ''A1''))
       = Some [OnFailed, OnFailed]"
proof -
  have s: "video_present cameraDenied" "\<not> detectorLoading cameraDenied"
    by (simp_all add: env_simps kiosk_def)
  have q: "query cameraDenied (lit ''A1'') = (Some alice, False)"
    by (rule query_single) (simp_all add: env_simps kiosk_def alice_def)
  have a: "\<not> (face_embedding alice = NullEmbedding \<and> \<not> truthy (face_image_url alice))"
    by (simp add: alice_def)
  have n: "snd (attemptLoop cameraDenied 1) = None"
    by (simp only: loop_cameraDenied snd_conv)
  have c: "startCamera cameraDenied = Some [GetUserMedia, OnFailed]"
    by (simp add: startCamera_def env_simps kiosk_def)
  have v: "verifyFace cameraDenied (lit ''A1'') =
      (Rejected NoLiveFace,
       [Query (lit ''A1''), Delay 1500] @ fst (attemptLoop cameraDenied 1) @ failed 2000)"
    by (rule verifyFace_NoLiveFace [OF s(1) q a s(2) n])
  have run: "startVerification cameraDenied (lit ''A1'') =
     Some (Rejected NoLiveFace,
       [GetUserMedia, OnFailed, SetIsVerifying, Hold 3500,
        Query (lit ''A1''), Delay 1500,
        LiveDetect 1, SetFaceDetected False, LiveExtract 1, Delay 1500,
        LiveDetect 2, SetFaceDetected False, LiveExtract 2, Delay 1500,
        LiveDetect 3, SetFaceDetected False, LiveExtract 3, Delay 1500,
        LiveDetect 4, SetFaceDetected False, LiveExtract 4, Delay 1500,
        LiveDetect 5, SetFaceDetected False, LiveExtract 5, Delay 1500,
        LiveDetect 6, SetFaceDetected False, LiveExtract 6, Delay 1500,
        LiveDetect 7, SetFaceDetected False, LiveExtract 7, Delay 1500,
        LiveDetect 8, SetFaceDetected False, LiveExtract 8, Delay 1500,
        LiveDetect 9, SetFaceDetected False, LiveExtract 9, Delay 1500,
        LiveDetect 10, SetFaceDetected False, LiveExtract 10,
        SetVerificationStatus Failed, Hold 2000, StopCamera, OnFailed])"
    unfolding startVerification_def c v loop_cameraDenied by (simp add: failed_def)
  show ?thesis
    unfolding run by simp
qed




text \<open>
  Claim C7. The rows a run inserts into \<open>verification_events\<close> are exactly one row, with
  the id of the user, the tag presented and both checks marked true, when the run ends
  matched, and none when it ends rejected, whatever the reason. The same holds for the
  whole of \<open>startVerification\<close>.
\<close>

theorem audit_only_on_match:
  "audits (snd (verifyFace e rfidTag)) =
     (case fst (verifyFace e rfidTag) of
        Matched uid \<Rightarrow>
          [\<lparr>user_id = uid, rfid_tag = rfidTag, face_verified = True, rfid_verified = True\<rparr>]
      | Rejected r \<Rightarrow> [])
   \<and> (startVerification e rfidTag = Some (out, evs) \<longrightarrow>
        audits evs =
          (case out of
             Matched uid \<Rightarrow>
               [\<lparr>user_id = uid, rfid_tag = rfidTag, face_verified = True, rfid_verified = True\<rparr>]
           | Rejected r \<Rightarrow> []))"
proof (intro conjI impI)
  show "audits (snd (verifyFace e rfidTag)) =
     (case fst (verifyFace e rfidTag) of
        Matched uid \<Rightarrow>
          [\<lparr>user_id = uid, rfid_tag = rfidTag, face_verified = True, rfid_verified = True\<rparr>]
      | Rejected r \<Rightarrow> [])"
    by (rule audits_verifyFace)
next
  assume sv: "startVerification e rfidTag = Some (out, evs)"
  then obtain cevs where c: "startCamera e = Some cevs"
    and o: "out = fst (verifyFace e rfidTag)"
    and ev: "evs = cevs @ [SetIsVerifying, Hold 3500] @ snd (verifyFace e rfidTag)"
    by (auto simp: startVerification_def case_prod_beta split: option.splits)
  show "audits evs =
          (case out of
             Matched uid \<Rightarrow>
               [\<lparr>user_id = uid, rfid_tag = rfidTag, face_verified = True, rfid_verified = True\<rparr>]
           | Rejected r \<Rightarrow> [])"
    by (simp add: ev o audits_append audits_startCamera [OF c] audits_verifyFace)
qed

theorem audit_only_on_match_witness:
  "audits (snd (verifyFace seesAlice (lit ''A1''))) =
     [\<lparr>user_id = lit ''A1'', rfid_tag = lit ''A1'', face_verified = True, rfid_verified = True\<rparr>]
   \<and> audits (snd (verifyFace seesStranger (lit ''A1''))) = []"
proof -
  have a: "fst (verifyFace seesAlice (lit ''A1'')) = Matched (lit ''A1'')"
    using verifyFace_scored [of seesAlice "lit ''A1''" alice _ _ "[]", OF _ query_seesAlice _
            loop_seesAlice resolve_alice]
    by (simp add: env_simps kiosk_def scoring_def score_alice_alice threshold_between alice_def)
  have b: "fst (verifyFace seesStranger (lit ''A1'')) = Rejected BelowThreshold"
    using verifyFace_scored [of seesStranger "lit ''A1''" alice _ _ "[]", OF _ query_seesStranger _
            loop_seesStranger resolve_alice]
    by (simp add: env_simps kiosk_def scoring_def score_alice_stranger threshold_between)
  from audit_only_on_match [of seesAlice "lit ''A1''"] audit_only_on_match [of seesStranger "lit ''A1''"]
  show ?thesis by (simp add: a b)
qed

text \<open>
  Claim C8, amended. When the models are not loaded, \<open>detectFaces\<close> returns \<open>null\<close> and so
  does \<open>extractFaceEmbedding\<close>: the same result as for a frame in which no face is
  detected, so that the caller cannot tell the two apart.
\<close>

theorem extract_not_ready_is_no_face:
  "detectFaces False v = None
   \<and> extractFaceEmbedding False t v = None
   \<and> (detectAllFaces f = Detections [] \<longrightarrow>
        extractFaceEmbedding True t' (Some f) = extractFaceEmbedding False t v)"
  by (simp add: extractFaceEmbedding_def detectFaces_def)

theorem extract_not_ready_is_no_face_witness:
  "extractFaceEmbedding False 1000 (Some (faceFrame [Finite 1, Finite 0])) = None
   \<and> extractFaceEmbedding True 1000 (Some emptyFrame) = None"
  using extract_not_ready_is_no_face [of "Some (faceFrame [Finite 1, Finite 0])" 1000 emptyFrame 1000]
  by (simp add: emptyFrame_def)

text \<open>
  Claim C8 as stated fails: extraction with the models not loaded, on a frame that shows
  a face, gives the very result of extraction with the models loaded on a frame without
  a face.
\<close>

theorem not_ready_indistinguishable_counterexample:
  "extractFaceEmbedding False 1000 (Some (faceFrame [Finite 1, Finite 0]))
     = extractFaceEmbedding True 1000 (Some emptyFrame)"
  by (simp add: extractFaceEmbedding_def detectFaces_def emptyFrame_def)

text \<open>
  Claim C9. A stored URL that consists of white space, a double quote, \<open>url\<close>, a double
  quote and white space is cleaned to \<open>url\<close>: it is trimmed and one pair of quotes is
  removed. When \<open>url\<close> starts with \<open>http://\<close> or \<open>https://\<close> the cleaned value passes the
  validation and the image is loaded from \<open>url\<close>, without the quotes. A trimmed value that
  does not both start and end with a double quote is left as it is.
\<close>

theorem quoted_url_is_cleaned:
  "((\<forall>c\<in>set l. isWhiteSpace c) \<and> (\<forall>c\<in>set r. isWhiteSpace c) \<longrightarrow>
      cleanUrl (l @ dquote # url @ dquote # r) = url
      \<and> ((startsWith url (lit ''http://'') \<or> startsWith url (lit ''https://''))
           \<and> face_embedding u = NullEmbedding
           \<and> face_image_url u = Some (l @ dquote # url @ dquote # r) \<longrightarrow>
         validUrl (cleanUrl (l @ dquote # url @ dquote # r))
         \<and> (\<exists>rest. fst (resolveReference e u) = LoadImage url # rest)))
   \<and> (\<not> (startsWith (trim s) [dquote] \<and> endsWith (trim s) [dquote]) \<longrightarrow> cleanUrl s = trim s)"
proof (intro conjI impI)
  assume ws: "(\<forall>c\<in>set l. isWhiteSpace c) \<and> (\<forall>c\<in>set r. isWhiteSpace c)"
  then show c: "cleanUrl (l @ dquote # url @ dquote # r) = url"
    by (intro cleanUrl_quoted) blast+
  assume h: "(startsWith url (lit ''http://'') \<or> startsWith url (lit ''https://''))
           \<and> face_embedding u = NullEmbedding
           \<and> face_image_url u = Some (l @ dquote # url @ dquote # r)"
  then show v: "validUrl (cleanUrl (l @ dquote # url @ dquote # r))"
    unfolding c by (auto simp: validUrl_def)
  from h have t: "truthy (face_image_url u)" by (simp add: truthy_def)
  from h t v show "\<exists>rest. fst (resolveReference e u) = LoadImage url # rest"
    unfolding c
    by (auto simp: resolveReference_def Let_def c extractEmbeddingFromImage_def
             split: image_result.splits option.splits)
next
  assume "\<not> (startsWith (trim s) [dquote] \<and> endsWith (trim s) [dquote])"
  then show "cleanUrl s = trim s" by (auto simp: cleanUrl_def Let_def)
qed

theorem quoted_url_is_cleaned_witness:
  "cleanUrl (32 # dquote # lit ''https://example.com/f.jpg'' @ [dquote, 32])
     = lit ''https://example.com/f.jpg''
   \<and> validUrl (cleanUrl (32 # dquote # lit ''https://example.com/f.jpg'' @ [dquote, 32]))
   \<and> (\<exists>rest. fst (resolveReference (kiosk [bob] (\<lambda>k. emptyFrame) (\<lambda>url. LoadFails)) bob)
         = LoadImage (lit ''https://example.com/f.jpg'') # rest)"
proof -
  have ws: "(\<forall>c\<in>set [32]. isWhiteSpace c) \<and> (\<forall>c\<in>set [32]. isWhiteSpace c)"
    by (simp add: isWhiteSpace_def)
  have h: "(startsWith (lit ''https://example.com/f.jpg'') (lit ''http://'')
            \<or> startsWith (lit ''https://example.com/f.jpg'') (lit ''https://''))
           \<and> face_embedding bob = NullEmbedding
           \<and> face_image_url bob
               = Some ([32] @ dquote # lit ''https://example.com/f.jpg'' @ dquote # [32])"
    by (simp add: startsWith_def lit_def bob_def)
  have eq: "[32] @ dquote # lit ''https://example.com/f.jpg'' @ dquote # [32]
      = 32 # dquote # lit ''https://example.com/f.jpg'' @ [dquote, 32]"
    by simp
  from quoted_url_is_cleaned
         [of "[32]" "[32]" "lit ''https://example.com/f.jpg''" bob
             "kiosk [bob] (\<lambda>k. emptyFrame) (\<lambda>url. LoadFails)"] ws h
  show ?thesis unfolding eq by blast
qed

text \<open>
  Claim C10. Whenever \<open>onVerified\<close> is called, its argument is the tag presented: the user
  is the row whose \<open>id\<close> equals the tag. A run that ends matched is matched for the tag
  and calls \<open>onVerified\<close> with it.
\<close>

theorem verified_id_is_tag:
  "(OnVerified uid \<in> set (snd (verifyFace e rfidTag)) \<longrightarrow> uid = rfidTag)
   \<and> (fst (verifyFace e rfidTag) = Matched uid \<longrightarrow>
        uid = rfidTag \<and> OnVerified rfidTag \<in> set (snd (verifyFace e rfidTag)))
   \<and> (startVerification e rfidTag = Some (out, evs) \<and> OnVerified uid \<in> set evs \<longrightarrow>
        uid = rfidTag)"
proof -
  have 1: "OnVerified uid \<in> set (snd (verifyFace e rfidTag)) \<Longrightarrow> uid = rfidTag" for uid
  proof (cases e rfidTag rule: verifyFace_cases)
    case (NoLiveFace u levs)
    assume "OnVerified uid \<in> set (snd (verifyFace e rfidTag))"
    with NoLiveFace loop_no_OnVerified [of uid e 1] show ?thesis by (simp add: failed_def)
  next
    case (ResolveFails u levs cur revs r ms)
    assume "OnVerified uid \<in> set (snd (verifyFace e rfidTag))"
    with ResolveFails loop_no_OnVerified [of uid e 1] resolveReference_events [of "OnVerified uid" e u]
    show ?thesis by (auto simp: failed_def)
  next
    case (Scored u levs cur revs stored)
    assume "OnVerified uid \<in> set (snd (verifyFace e rfidTag))"
    with Scored loop_no_OnVerified [of uid e 1] resolveReference_events [of "OnVerified uid" e u]
    have "OnVerified uid \<in> set (snd (scoring u rfidTag stored cur))" by auto
    then have "uid = id' u"
      by (auto simp: scoring_def Let_def failed_def split: stored_embedding.splits if_splits)
    with Scored(2) show ?thesis by (simp add: query_id)
  qed (auto simp: failed_def)
  have 2: "fst (verifyFace e rfidTag) = Matched uid \<Longrightarrow>
        uid = rfidTag \<and> OnVerified rfidTag \<in> set (snd (verifyFace e rfidTag))"
  proof (cases e rfidTag rule: verifyFace_cases)
    case (Scored u levs cur revs stored)
    assume "fst (verifyFace e rfidTag) = Matched uid"
    with Scored have m: "fst (scoring u rfidTag stored cur) = Matched uid" by simp
    then have "uid = id' u" and "OnVerified uid \<in> set (snd (scoring u rfidTag stored cur))"
      by (auto simp: scoring_def Let_def failed_def split: stored_embedding.splits if_splits)
    with Scored show ?thesis by (simp add: query_id)
  qed simp_all
  have 3: "startVerification e rfidTag = Some (out, evs) \<and> OnVerified uid \<in> set evs \<Longrightarrow>
        uid = rfidTag"
  proof -
    assume h: "startVerification e rfidTag = Some (out, evs) \<and> OnVerified uid \<in> set evs"
    then obtain cevs where c: "startCamera e = Some cevs"
      and ev: "evs = cevs @ [SetIsVerifying, Hold 3500] @ snd (verifyFace e rfidTag)"
      by (auto simp: startVerification_def case_prod_beta split: option.splits)
    from c have "OnVerified uid \<notin> set cevs"
      by (auto simp: startCamera_def split: if_splits option.splits)
    with h ev have "OnVerified uid \<in> set (snd (verifyFace e rfidTag))" by simp
    then show "uid = rfidTag" by (rule 1)
  qed
  from 1 2 3 show ?thesis by blast
qed

theorem verified_id_is_tag_witness:
  "OnVerified (lit ''A1'') \<in> set (snd (verifyFace seesAlice (lit ''A1'')))
   \<and> lit ''A1'' = id' alice"
proof -
  have a: "fst (verifyFace seesAlice (lit ''A1'')) = Matched (id' alice)"
    using verifyFace_scored [of seesAlice "lit ''A1''" alice _ _ "[]", OF _ query_seesAlice _
            loop_seesAlice resolve_alice]
    by (simp add: env_simps kiosk_def scoring_def score_alice_alice threshold_between)
  from verified_id_is_tag [of "id' alice" seesAlice "lit ''A1''"] a
  show ?thesis by metis
qed

end
